theory Spec2Isabelle
  imports Main "HOL-Library.Word" "HOL-Library.Signed_Division" "HOL-Library.Monad_Syntax"
begin

unbundle bit_operations_syntax

section \<open>Go values: bytes, slices, panics\<close>

text \<open>
  A byte is an 8-bit word. A Go function that can abort with a run-time panic (index or
  slice bound out of range, nil dereference) returns an \<open>option\<close>: \<open>None\<close> is the
  panic, \<open>Some r\<close> is a normal return of \<open>r\<close>. A Go function returning \<open>(T, error)\<close>
  returns a pair whose second component is \<open>None\<close> for a nil error.
\<close>

type_synonym byte = "8 word"

datatype error =
    EOF
  | Truncated
  | ErrInvalidHeaderSize
  | ErrUnknownEventType
  | ErrUnknownEvent
  | ErrNotSupport
  | ErrEmptyBinaryLogInfo
  | ErrEmptyEventHeader
  | ErrEventSize
  | ErrChecksum
  | ErrUnknownFieldType byte

text \<open>
  A Go slice is a window on an array: \<open>elems\<close> are the bytes below its length,
  \<open>spare\<close> the bytes of the array between its length and its capacity. Indexing and the
  low bound of a slice expression are checked against the length, the high bound of a
  slice expression against the capacity.
\<close>

record slice =
  elems :: "byte list"
  spare :: "byte list"

definition mk :: "byte list \<Rightarrow> slice" where
  "mk bs = \<lparr>elems = bs, spare = []\<rparr>"

definition len :: "slice \<Rightarrow> int" where
  "len s = int (length (elems s))"

definition cap :: "slice \<Rightarrow> int" where
  "cap s = int (length (elems s) + length (spare s))"

text \<open>\<open>s[i]\<close>\<close>
definition idx :: "slice \<Rightarrow> int \<Rightarrow> byte option" where
  "idx s i = (if 0 \<le> i \<and> i < len s then Some (elems s ! nat i) else None)"

text \<open>\<open>s[lo:]\<close>\<close>
definition sl_from :: "slice \<Rightarrow> int \<Rightarrow> slice option" where
  "sl_from s lo =
     (if 0 \<le> lo \<and> lo \<le> len s then Some \<lparr>elems = drop (nat lo) (elems s), spare = spare s\<rparr>
      else None)"

text \<open>\<open>s[lo:hi]\<close>\<close>
definition sl :: "slice \<Rightarrow> int \<Rightarrow> int \<Rightarrow> slice option" where
  "sl s lo hi =
     (if 0 \<le> lo \<and> lo \<le> hi \<and> hi \<le> cap s
      then Some \<lparr>elems = take (nat (hi - lo)) (drop (nat lo) (elems s @ spare s)),
                 spare = drop (nat hi) (elems s @ spare s)\<rparr>
      else None)"

text \<open>\<open>s[:hi]\<close>\<close>
definition sl_to :: "slice \<Rightarrow> int \<Rightarrow> slice option" where
  "sl_to s hi = sl s 0 hi"

text \<open>The little-endian value of a byte sequence.\<close>
fun le_nat :: "byte list \<Rightarrow> nat" where
  "le_nat [] = 0"
| "le_nat (b # bs) = unat b + 256 * le_nat bs"

text \<open>\<open>binary.LittleEndian.Uint16/Uint32/Uint64\<close>: the bounds check on the last byte
  read comes first, then the first bytes of the slice are combined.\<close>

definition Uint16 :: "slice \<Rightarrow> 16 word option" where
  "Uint16 b = (if len b < 2 then None else Some (of_nat (le_nat (take 2 (elems b)))))"

definition Uint32 :: "slice \<Rightarrow> 32 word option" where
  "Uint32 b = (if len b < 4 then None else Some (of_nat (le_nat (take 4 (elems b)))))"

definition Uint64 :: "slice \<Rightarrow> 64 word option" where
  "Uint64 b = (if len b < 8 then None else Some (of_nat (le_nat (take 8 (elems b)))))"

text \<open>
  Go's \<open>int\<close> is 64 bits wide and \<open>/\<close> truncates towards zero. Positions and lengths
  are kept as HOL integers; \<open>wrap_int\<close> is written where a value can leave the range
  (the conversion of a \<open>uint64\<close> and the addition in \<open>bitmapByteSize\<close>). All other
  additions below are on positions bounded by a slice length plus a few bytes.
\<close>

definition wrap_int :: "int \<Rightarrow> int" where
  "wrap_int x = (x + 2 ^ 63) mod 2 ^ 64 - 2 ^ 63"

text \<open>\<open>int(x)\<close> for \<open>x\<close> a \<open>uint64\<close>\<close>
definition int_of_u64 :: "64 word \<Rightarrow> int" where
  "int_of_u64 w = wrap_int (uint w)"

section \<open>Declarations that the source files use but do not contain\<close>

text \<open>
  Modelled from the spec: the event-type constants. Their declarations are not in the
  source files; the spec names the event types (Format-Description, Query, XID, Intvar,
  Rotate, Table-Map, the Write/Update/Delete row events of versions 0 to 2, previous-GTIDs
  and anonymous-GTID) and the source cites the MySQL internals manual, whose numbering of
  binlog event types is used.
\<close>

definition UnknownEvent :: byte where "UnknownEvent = 0"
definition QueryEvent :: byte where "QueryEvent = 2"
definition RotateEvent :: byte where "RotateEvent = 4"
definition IntvarEvent :: byte where "IntvarEvent = 5"
definition FormatDescriptionEvent :: byte where "FormatDescriptionEvent = 15"
definition XIDEvent :: byte where "XIDEvent = 16"
definition TableMapEvent :: byte where "TableMapEvent = 19"
definition WriteRowsEventV0 :: byte where "WriteRowsEventV0 = 20"
definition UpdateRowsEventV0 :: byte where "UpdateRowsEventV0 = 21"
definition DeleteRowsEventV0 :: byte where "DeleteRowsEventV0 = 22"
definition WriteRowsEventV1 :: byte where "WriteRowsEventV1 = 23"
definition UpdateRowsEventV1 :: byte where "UpdateRowsEventV1 = 24"
definition DeleteRowsEventV1 :: byte where "DeleteRowsEventV1 = 25"
definition WriteRowsEventV2 :: byte where "WriteRowsEventV2 = 30"
definition UpdateRowsEventV2 :: byte where "UpdateRowsEventV2 = 31"
definition DeleteRowsEventV2 :: byte where "DeleteRowsEventV2 = 32"
definition AnonymousGTIDEvent :: byte where "AnonymousGTIDEvent = 34"
definition PreviousGTIDEvent :: byte where "PreviousGTIDEvent = 35"

text \<open>
  Modelled from the spec: the table \<open>EventType2Str\<close> of the event types that have a
  name (the spec's "known set"); only membership is used by the decoder. The table is
  not in the source files; it is taken to name the event types 0 to 35 of the MySQL
  numbering.
\<close>

definition EventType2Str :: "byte \<Rightarrow> bool" where
  "EventType2Str t = (t \<le> 35)"

text \<open>
  Modelled from the spec: the column-type constants used by \<open>decodeMeta\<close>, with the
  MySQL protocol's numbering (their declarations are not in the source files).
\<close>

definition MySQLTypeDecimal :: byte where "MySQLTypeDecimal = 0"
definition MySQLTypeTiny :: byte where "MySQLTypeTiny = 1"
definition MySQLTypeShort :: byte where "MySQLTypeShort = 2"
definition MySQLTypeLong :: byte where "MySQLTypeLong = 3"
definition MySQLTypeFloat :: byte where "MySQLTypeFloat = 4"
definition MySQLTypeDouble :: byte where "MySQLTypeDouble = 5"
definition MySQLTypeNull :: byte where "MySQLTypeNull = 6"
definition MySQLTypeTimestamp :: byte where "MySQLTypeTimestamp = 7"
definition MySQLTypeLonglong :: byte where "MySQLTypeLonglong = 8"
definition MySQLTypeInt24 :: byte where "MySQLTypeInt24 = 9"
definition MySQLTypeDate :: byte where "MySQLTypeDate = 10"
definition MySQLTypeTime :: byte where "MySQLTypeTime = 11"
definition MySQLTypeDatetime :: byte where "MySQLTypeDatetime = 12"
definition MySQLTypeYear :: byte where "MySQLTypeYear = 13"
definition MySQLTypeNewDate :: byte where "MySQLTypeNewDate = 14"
definition MySQLTypeVarchar :: byte where "MySQLTypeVarchar = 15"
definition MySQLTypeBit :: byte where "MySQLTypeBit = 16"
definition MySQLTypeTimestamp2 :: byte where "MySQLTypeTimestamp2 = 17"
definition MySQLTypeDatetime2 :: byte where "MySQLTypeDatetime2 = 18"
definition MySQLTypeTime2 :: byte where "MySQLTypeTime2 = 19"
definition MySQLTypeJSON :: byte where "MySQLTypeJSON = 245"
definition MySQLTypeNewDecimal :: byte where "MySQLTypeNewDecimal = 246"
definition MySQLTypeEnum :: byte where "MySQLTypeEnum = 247"
definition MySQLTypeSet :: byte where "MySQLTypeSet = 248"
definition MySQLTypeTinyBlob :: byte where "MySQLTypeTinyBlob = 249"
definition MySQLTypeMediumBlob :: byte where "MySQLTypeMediumBlob = 250"
definition MySQLTypeLongBlob :: byte where "MySQLTypeLongBlob = 251"
definition MySQLTypeBlob :: byte where "MySQLTypeBlob = 252"
definition MySQLTypeVarString :: byte where "MySQLTypeVarString = 253"
definition MySQLTypeString :: byte where "MySQLTypeString = 254"
definition MySQLTypeGeometry :: byte where "MySQLTypeGeometry = 255"

text \<open>
  Modelled from the spec: \<open>binlogChecksumLength\<close>, the length of the checksum value
  ("the last 4 bytes are the checksum value"); the constant's declaration is not in the
  source files.
\<close>

definition binlogChecksumLength :: int where
  "binlogChecksumLength = 4"

text \<open>
  Modelled from the spec: \<open>FixedLengthInt(buf)\<close>, the little-endian unsigned integer
  held by the bytes of \<open>buf\<close> (the spec's fixed-width reader; the function itself is
  not in the source files).
\<close>

definition FixedLengthInt :: "slice \<Rightarrow> 64 word" where
  "FixedLengthInt b = of_nat (le_nat (elems b))"

text \<open>
  Modelled from the spec: \<open>LengthEncodedInt(b)\<close>, the packed-integer reader, which
  returns the value, the null flag and the number of bytes consumed. A first byte up to
  0xFA is the value itself; 0xFB is NULL (the flag is the marker, the number returned
  with it is 0); 0xFC, 0xFD and 0xFE announce 2, 3 and 8 further little-endian bytes.
  The spec's failure on absent bytes has no error result to go to in the signature the
  source uses, so it is the abort \<open>None\<close>; the spec gives no reading of a first byte
  0xFF, which fails likewise.
\<close>

definition LengthEncodedInt :: "slice \<Rightarrow> (64 word \<times> bool \<times> int) option" where
  "LengthEncodedInt b =
     (case elems b of
        [] \<Rightarrow> None
      | x # rest \<Rightarrow>
          if x \<le> 0xFA then Some (ucast x, False, 1)
          else if x = 0xFB then Some (0, True, 1)
          else if x = 0xFC then
            (if length rest < 2 then None else Some (of_nat (le_nat (take 2 rest)), False, 3))
          else if x = 0xFD then
            (if length rest < 3 then None else Some (of_nat (le_nat (take 3 rest)), False, 4))
          else if x = 0xFE then
            (if length rest < 8 then None else Some (of_nat (le_nat (take 8 rest)), False, 9))
          else None)"

text \<open>
  Modelled from the spec: \<open>LengthEncodedString(b)\<close>, a packed-integer length followed
  by that many bytes; it returns the payload, the null flag, the number of bytes consumed
  (prefix and payload, as the caller's \<open>pos += n\<close> needs) and \<open>Truncated\<close> when the
  payload is not all there. A NULL length gives an empty payload.
\<close>

definition LengthEncodedString :: "slice \<Rightarrow> (slice \<times> bool \<times> int \<times> error option) option" where
  "LengthEncodedString b = do {
     (num, isNull, n) \<leftarrow> LengthEncodedInt b;
     if len b < n + uint num then Some (mk [], False, n + uint num, Some Truncated)
     else do {
       payload \<leftarrow> sl b n (n + uint num);
       Some (payload, isNull, n + uint num, None)
     }
   }"

text \<open>
  Modelled from the spec: \<open>ReadNBytes(rd, n)\<close>, the byte source's \<open>readExactly\<close>:
  exactly \<open>n\<close> bytes, or end-of-stream when the source is exhausted, or \<open>Truncated\<close>
  when it ends before \<open>n\<close> bytes. The reader is the list of bytes still to come; the
  result carries the reader after the call. A negative count has no meaning in the spec
  and is an abort.
\<close>

definition ReadNBytes :: "byte list \<Rightarrow> int \<Rightarrow> (slice \<times> error option \<times> byte list) option" where
  "ReadNBytes rd n =
     (if n < 0 then None
      else if n \<le> int (length rd) then Some (mk (take (nat n) rd), None, drop (nat n) rd)
      else if rd = [] then Some (mk [], Some EOF, [])
      else Some (mk [], Some Truncated, []))"

text \<open>
  The functions \<open>hasChecksum\<close> (on the server version string) and \<open>ChecksumValidate\<close>
  (on the algorithm byte, the stored checksum and the checksummed bytes) are not in the
  source files either; the decoder takes them as parameters.
\<close>

record externals =
  hasChecksum :: "byte list \<Rightarrow> bool"
  ChecksumValidate :: "byte \<Rightarrow> byte list \<Rightarrow> byte list \<Rightarrow> bool"

section \<open>event.go: the event header\<close>

record BinEventHeader =
  Timestamp :: int
  EventType :: byte
  ServerID :: int
  EventSize :: int
  LogPos :: int
  Flag :: "16 word"

text \<open>
  \<open>decodeEventHeader(data, size)\<close> (the parameter \<open>size\<close> is \<open>hsize\<close> here). The fields \<open>LogPos\<close> and \<open>Flag\<close> keep the zero
  value of the fresh struct unless \<open>size > 13\<close>.
\<close>

definition decodeEventHeader :: "slice \<Rightarrow> int \<Rightarrow> (BinEventHeader option \<times> error option) option" where
  "decodeEventHeader data hsize =
     (if len data < hsize then Some (None, Some ErrInvalidHeaderSize)
      else do {
        let pos = (0::int);
        b \<leftarrow> sl_from data pos;
        ts \<leftarrow> Uint32 b;
        let pos = pos + 4;
        ty \<leftarrow> idx data pos;
        let pos = pos + 1;
        b \<leftarrow> sl_from data pos;
        sid \<leftarrow> Uint32 b;
        let pos = pos + 4;
        b \<leftarrow> sl_from data pos;
        sz \<leftarrow> Uint32 b;
        let pos = pos + 4;
        (lp, fl) \<leftarrow>
          (if hsize > 13 then do {
             b \<leftarrow> sl_from data pos;
             lp \<leftarrow> Uint32 b;
             let pos = pos + 4;
             b \<leftarrow> sl_from data pos;
             fl \<leftarrow> Uint16 b;
             Some (uint lp, fl)
           } else Some (0, 0));
        Some (Some \<lparr>Timestamp = uint ts, EventType = ty, ServerID = uint sid,
                     EventSize = uint sz, LogPos = lp, Flag = fl\<rparr>, None)
      })"

section \<open>event.go: the format description\<close>

record BinFmtDescEvent =
  BinlogVersion :: int
  MySQLVersion :: "byte list"
  CreateTime :: int
  EventHeaderLength :: int
  EventTypeHeader :: "byte list"
  hasCheckSum :: bool

text \<open>
  \<open>bytes.Trim(s, cutset)\<close> for the one-character cutset \<open>strconv.Itoa(0x00)\<close>, which
  is the string "0": the bytes equal to the digit zero (0x30) are removed at both ends.
\<close>

definition Trim :: "byte list \<Rightarrow> byte \<Rightarrow> byte list" where
  "Trim s c = rev (dropWhile (\<lambda>b. b = c) (rev (dropWhile (\<lambda>b. b = c) s)))"

text \<open>\<open>decodeFmtDescEvent(data)\<close>; the error it returns is always nil.\<close>

definition decodeFmtDescEvent :: "externals \<Rightarrow> slice \<Rightarrow> BinFmtDescEvent option" where
  "decodeFmtDescEvent X data = do {
     let pos = (0::int);
     v \<leftarrow> Uint16 data;
     let pos = pos + 2;
     ver \<leftarrow> sl data pos (pos + 50);
     let mv = Trim (elems ver) 0x30;
     let pos = pos + 50;
     b \<leftarrow> sl_from data pos;
     ct \<leftarrow> Uint32 b;
     let pos = pos + 4;
     hl \<leftarrow> idx data pos;
     let pos = pos + 1;
     eth \<leftarrow> sl_from data pos;
     Some \<lparr>BinlogVersion = uint v, MySQLVersion = mv, CreateTime = uint ct,
           EventHeaderLength = uint hl, EventTypeHeader = elems eth,
           hasCheckSum = hasChecksum X mv\<rparr>
   }"

section \<open>rows\_event.go\<close>

text \<open>\<open>bitmapByteSize(columnCount)\<close>: \<open>(columnCount + 7) / 8\<close> on Go's \<open>int\<close>.\<close>

definition bitmapByteSize :: "int \<Rightarrow> int" where
  "bitmapByteSize columnCount = wrap_int (columnCount + 7) sdiv 8"

record ColumnType =
  c_columnType :: byte
  c_name :: "byte list"
  c_unsigned :: bool
  c_maxLength :: "16 word"
  c_lengthSize :: byte
  c_precision :: int
  c_decimals :: int
  c_size :: "16 word"
  c_bytes :: int
  c_bits :: byte
  c_fsp :: byte

text \<open>The zero value of \<open>ColumnType\<close>, as \<open>make\<close> fills the array with.\<close>

definition zeroColumnType :: ColumnType where
  "zeroColumnType =
     \<lparr>c_columnType = 0, c_name = [], c_unsigned = False, c_maxLength = 0, c_lengthSize = 0,
      c_precision = 0, c_decimals = 0, c_size = 0, c_bytes = 0, c_bits = 0, c_fsp = 0\<rparr>"

record BinTableMapEvent =
  tm_TableID :: "64 word"
  tm_tableIDLen :: int
  tm_Flags :: "16 word"
  tm_Schema :: "byte list"
  tm_Table :: "byte list"
  tm_ColumnCount :: "64 word"
  ColumnTypeDef :: "byte list"
  ColumnMetaDef :: "ColumnType list"
  NullBitmap :: "byte list"

text \<open>\<open>Bitfield.isSet(index)\<close>\<close>

definition isSet :: "byte list \<Rightarrow> nat \<Rightarrow> bool option" where
  "isSet bits index = do {
     b \<leftarrow> idx (mk bits) (int (index div 8));
     Some (b AND push_bit (index mod 8) 1 \<noteq> 0)
   }"

text \<open>
  \<open>BinTableMapEvent.Init(h)\<close>: the width of the table id. A nil \<open>h\<close> and a table of
  header lengths without the entry for \<open>TableMapEvent\<close> abort.
\<close>

definition TableMap_Init :: "BinFmtDescEvent option \<Rightarrow> int option" where
  "TableMap_Init h = do {
     d \<leftarrow> h;
     x \<leftarrow> idx (mk (EventTypeHeader d)) (uint (TableMapEvent - 1));
     Some (if uint x = 6 then 4 else 6)
   }"

text \<open>
  One turn of the loop of \<open>decodeMeta\<close>: the metadata of a column of type \<open>t\<close> read at
  \<open>pos\<close>, and the position after it; \<open>Inl\<close> is the error of the default case.
\<close>

definition metaStep :: "slice \<Rightarrow> int \<Rightarrow> byte \<Rightarrow> (error + ColumnType \<times> int) option" where
  "metaStep data pos t =
     (if t = MySQLTypeString then do {
        fieldType \<leftarrow> idx data pos;
        let pos = pos + 1;
        fieldLength \<leftarrow> idx data pos;
        let pos = pos + 1;
        let metadata = push_bit 8 (ucast fieldType :: 16 word) + ucast fieldLength;
        if fieldType = MySQLTypeEnum \<or> fieldType = MySQLTypeSet
        then Some (Inr (zeroColumnType\<lparr>c_columnType := fieldType,
                                        c_size := metadata AND 0x00ff\<rparr>, pos))
        else Some (Inr (zeroColumnType\<lparr>c_maxLength :=
                     (((drop_bit 4 metadata) AND 0x300) XOR 0x300) + (metadata AND 0x00ff)\<rparr>, pos))
      }
      else if t = MySQLTypeVarString \<or> t = MySQLTypeVarchar \<or> t = MySQLTypeDecimal then do {
        b \<leftarrow> sl_from data pos;
        m \<leftarrow> Uint16 b;
        Some (Inr (zeroColumnType\<lparr>c_maxLength := m\<rparr>, pos + 2))
      }
      else if t = MySQLTypeBit then do {
        bits \<leftarrow> idx data pos;
        let pos = pos + 1;
        bytes \<leftarrow> idx data pos;
        let pos = pos + 1;
        let bs = (bytes * 8) + bits;
        Some (Inr (zeroColumnType\<lparr>c_bits := bs, c_bytes := uint ((bs + 7) div 8)\<rparr>, pos))
      }
      else if t = MySQLTypeBlob \<or> t = MySQLTypeGeometry \<or> t = MySQLTypeDouble
              \<or> t = MySQLTypeFloat \<or> t = MySQLTypeMediumBlob \<or> t = MySQLTypeTinyBlob
              \<or> t = MySQLTypeLongBlob \<or> t = MySQLTypeJSON then do {
        x \<leftarrow> idx data pos;
        Some (Inr (zeroColumnType\<lparr>c_lengthSize := x\<rparr>, pos + 1))
      }
      else if t = MySQLTypeNewDecimal then do {
        p \<leftarrow> idx data pos;
        let pos = pos + 1;
        d \<leftarrow> idx data pos;
        let pos = pos + 1;
        Some (Inr (zeroColumnType\<lparr>c_precision := uint p, c_decimals := uint d\<rparr>, pos))
      }
      else if t = MySQLTypeTime2 \<or> t = MySQLTypeDatetime2 \<or> t = MySQLTypeTimestamp2 then do {
        x \<leftarrow> idx data pos;
        Some (Inr (zeroColumnType\<lparr>c_fsp := x\<rparr>, pos + 1))
      }
      else if t = MySQLTypeDate \<or> t = MySQLTypeDatetime \<or> t = MySQLTypeTimestamp
              \<or> t = MySQLTypeTime \<or> t = MySQLTypeTiny \<or> t = MySQLTypeShort
              \<or> t = MySQLTypeInt24 \<or> t = MySQLTypeLong \<or> t = MySQLTypeLonglong
              \<or> t = MySQLTypeNull \<or> t = MySQLTypeYear \<or> t = MySQLTypeNewDate
      then Some (Inr (zeroColumnType\<lparr>c_maxLength := 0\<rparr>, pos))
      else Some (Inl (ErrUnknownFieldType t)))"

text \<open>
  \<open>decodeMeta(data)\<close>: the loop over \<open>ColumnTypeDef\<close>. The result is the array
  \<open>ColumnMetaDef\<close> and the error; at an error the entries not reached keep the zero
  value.
\<close>

fun decodeMeta_loop :: "slice \<Rightarrow> int \<Rightarrow> byte list \<Rightarrow> (ColumnType list \<times> error option) option" where
  "decodeMeta_loop data pos [] = Some ([], None)"
| "decodeMeta_loop data pos (t # ts) = do {
     r \<leftarrow> metaStep data pos t;
     case r of
       Inl e \<Rightarrow> Some (replicate (Suc (length ts)) zeroColumnType, Some e)
     | Inr (c, pos') \<Rightarrow> do {
         (cs, err) \<leftarrow> decodeMeta_loop data pos' ts;
         Some (c # cs, err)
       }
   }"

definition decodeMeta :: "byte list \<Rightarrow> slice \<Rightarrow> (ColumnType list \<times> error option) option" where
  "decodeMeta columnTypeDef data = decodeMeta_loop data 0 columnTypeDef"

text \<open>
  \<open>decodeTableMapEvent(data, h)\<close>. The array of column types is made with
  \<open>ColumnCount\<close> entries and filled from \<open>data[pos+i]\<close>: a count that is negative as an
  \<open>int\<close> or runs past the data aborts. When the bytes left for the null bitmap do not
  have the expected length the function returns the event together with \<open>io.EOF\<close>.
\<close>

definition decodeTableMapEvent ::
  "slice \<Rightarrow> BinFmtDescEvent option \<Rightarrow> (BinTableMapEvent option \<times> error option) option" where
  "decodeTableMapEvent data h = do {
     idLen \<leftarrow> TableMap_Init h;
     let pos = idLen;
     b \<leftarrow> sl_to data pos;
     let tableID = FixedLengthInt b;
     b \<leftarrow> sl_from data pos;
     flags \<leftarrow> Uint16 b;
     let pos = pos + 2;
     x \<leftarrow> idx data pos;
     let schemaLength = uint x;
     let pos = pos + 1;
     schema \<leftarrow> sl data pos (pos + schemaLength);
     let pos = pos + schemaLength + 1;
     x \<leftarrow> idx data pos;
     let tableLength = uint x;
     let pos = pos + 1;
     table \<leftarrow> sl data pos (pos + tableLength);
     let pos = pos + tableLength + 1;
     b \<leftarrow> sl_from data pos;
     (columnCount, _, n) \<leftarrow> LengthEncodedInt b;
     let pos = pos + n;
     let cnt = int_of_u64 columnCount;
     types \<leftarrow> (if 0 \<le> cnt \<and> pos + cnt \<le> len data
               then Some (take (nat cnt) (drop (nat pos) (elems data))) else None);
     let pos = pos + cnt;
     b \<leftarrow> sl_from data pos;
     (metaData, _, n, err) \<leftarrow> LengthEncodedString b;
     case err of
       Some e \<Rightarrow> Some (None, Some e)
     | None \<Rightarrow> do {
         (metas, err) \<leftarrow> decodeMeta types metaData;
         case err of
           Some e \<Rightarrow> Some (None, Some e)
         | None \<Rightarrow> do {
             let pos = pos + n;
             rest \<leftarrow> sl_from data pos;
             let event = \<lparr>tm_TableID = tableID, tm_tableIDLen = idLen, tm_Flags = flags,
                          tm_Schema = elems schema, tm_Table = elems table,
                          tm_ColumnCount = columnCount, ColumnTypeDef = types,
                          ColumnMetaDef = metas, NullBitmap = []\<rparr>;
             if len rest = bitmapByteSize cnt
             then Some (Some (event\<lparr>NullBitmap := elems rest\<rparr>), None)
             else Some (Some event, Some EOF)
           }
       }
   }"

record BinRowsEvent =
  Version :: int
  rows_TableID :: "64 word"
  rows_tableIDLen :: int
  rows_Flags :: "16 word"
  ExtraData :: "byte list"
  rows_ColumnCount :: "64 word"
  ColumnsBitmap1 :: "byte list"
  ColumnsBitmap2 :: "byte list"
  tableMap :: "BinTableMapEvent option"

text \<open>
  \<open>BinRowsEvent.Init(h, eventType)\<close>: the width of the table id and the version. The
  index \<open>eventType-1\<close> is computed on \<open>uint8\<close>.
\<close>

definition Rows_Init :: "BinFmtDescEvent option \<Rightarrow> byte \<Rightarrow> (int \<times> int) option" where
  "Rows_Init h eventType = do {
     d \<leftarrow> h;
     x \<leftarrow> idx (mk (EventTypeHeader d)) (uint (eventType - 1));
     let idLen = (if uint x = 6 then 4 else 6);
     let version =
       (if eventType = WriteRowsEventV0 \<or> eventType = UpdateRowsEventV0
           \<or> eventType = DeleteRowsEventV0 then 0
        else if eventType = WriteRowsEventV1 \<or> eventType = UpdateRowsEventV1
           \<or> eventType = DeleteRowsEventV1 then 1
        else if eventType = WriteRowsEventV2 \<or> eventType = UpdateRowsEventV2
           \<or> eventType = DeleteRowsEventV2 then 2
        else 0);
     Some (idLen, version)
   }"

text \<open>The version that \<open>Init\<close> gives to an event type (its \<open>switch\<close>).\<close>

definition rowsVersion :: "byte \<Rightarrow> int" where
  "rowsVersion eventType =
     (if eventType = WriteRowsEventV0 \<or> eventType = UpdateRowsEventV0
         \<or> eventType = DeleteRowsEventV0 then 0
      else if eventType = WriteRowsEventV1 \<or> eventType = UpdateRowsEventV1
         \<or> eventType = DeleteRowsEventV1 then 1
      else if eventType = WriteRowsEventV2 \<or> eventType = UpdateRowsEventV2
         \<or> eventType = DeleteRowsEventV2 then 2
      else 0)"

text \<open>
  \<open>decodeRowsEvent(data, h, typ)\<close>; the error it returns is always nil. The fields
  \<open>rows\<close> and \<open>tableMap\<close> of the event are never assigned: the table registry is not
  a parameter of the function.
\<close>

definition decodeRowsEvent :: "slice \<Rightarrow> BinFmtDescEvent option \<Rightarrow> byte \<Rightarrow> BinRowsEvent option" where
  "decodeRowsEvent data h typ = do {
     (idLen, version) \<leftarrow> Rows_Init h typ;
     let pos = idLen;
     b \<leftarrow> sl_to data pos;
     let tableID = FixedLengthInt b;
     b \<leftarrow> sl_from data pos;
     flags \<leftarrow> Uint16 b;
     let pos = pos + 2;
     (extraData, pos) \<leftarrow>
       (if version = 2 then do {
          b \<leftarrow> sl_from data pos;
          extraDataLen \<leftarrow> Uint16 b;
          let pos = pos + 2;
          e \<leftarrow> sl data pos (pos + uint (extraDataLen - 2));
          Some (elems e, pos + uint (extraDataLen - 2))
        } else Some ([], pos));
     b \<leftarrow> sl_from data pos;
     (columnCount, _, n) \<leftarrow> LengthEncodedInt b;
     let pos = pos + n;
     let bitCount = bitmapByteSize (int_of_u64 columnCount);
     bitmap1 \<leftarrow> sl data pos (pos + bitCount);
     let pos = pos + bitCount;
     (bitmap2, pos) \<leftarrow>
       (if typ = UpdateRowsEventV1 \<or> typ = UpdateRowsEventV2 then do {
          b2 \<leftarrow> sl data pos (pos + bitCount);
          Some (elems b2, pos + bitCount)
        } else Some ([], pos));
     Some \<lparr>Version = version, rows_TableID = tableID, rows_tableIDLen = idLen,
           rows_Flags = flags, ExtraData = extraData, rows_ColumnCount = columnCount,
           ColumnsBitmap1 = elems bitmap1, ColumnsBitmap2 = bitmap2, tableMap = None\<rparr>
   }"

section \<open>event.go: the other bodies, the event and its validation\<close>

record BinQueryEvent =
  SlaveProxyID :: int
  ExecutionTime :: int
  ErrorCode :: "16 word"
  statusVarsLength :: int
  StatusVars :: "byte list"
  q_Schema :: "byte list"
  Query :: "byte list"

text \<open>\<open>decodeQueryEvent(data, binlogVersion)\<close>; the error it returns is always nil.\<close>

definition decodeQueryEvent :: "slice \<Rightarrow> int \<Rightarrow> BinQueryEvent option" where
  "decodeQueryEvent data binlogVersion = do {
     let pos = (0::int);
     b \<leftarrow> sl_from data pos;
     spid \<leftarrow> Uint32 b;
     let pos = pos + 4;
     b \<leftarrow> sl_from data pos;
     et \<leftarrow> Uint32 b;
     let pos = pos + 4;
     x \<leftarrow> idx data pos;
     let schemaLength = uint x;
     let pos = pos + 1;
     b \<leftarrow> sl_from data pos;
     ec \<leftarrow> Uint16 b;
     let pos = pos + 2;
     (svl, sv, pos) \<leftarrow>
       (if binlogVersion \<ge> 4 then do {
          b \<leftarrow> sl_from data pos;
          l \<leftarrow> Uint16 b;
          let pos = pos + 2;
          v \<leftarrow> sl data pos (pos + uint l);
          Some (uint l, elems v, pos + uint l)
        } else Some (0, [], pos));
     schema \<leftarrow> sl data pos (pos + schemaLength);
     let pos = pos + schemaLength;
     let pos = pos + 1;
     q \<leftarrow> sl_from data pos;
     Some \<lparr>SlaveProxyID = uint spid, ExecutionTime = uint et, ErrorCode = ec,
           statusVarsLength = svl, StatusVars = sv, q_Schema = elems schema,
           Query = elems q\<rparr>
   }"

text \<open>\<open>decodeXIDEvent(data)\<close>: the XID.\<close>

definition decodeXIDEvent :: "slice \<Rightarrow> 64 word option" where
  "decodeXIDEvent data = Uint64 data"

record BinIntvarEvent =
  Type :: byte
  Value :: "64 word"

definition decodeIntvarEvent :: "slice \<Rightarrow> BinIntvarEvent option" where
  "decodeIntvarEvent data = do {
     t \<leftarrow> idx data 0;
     b \<leftarrow> sl_from data 1;
     v \<leftarrow> Uint64 b;
     Some \<lparr>Type = t, Value = v\<rparr>
   }"

record BinRotateEvent =
  Position :: "64 word"
  FileName :: "byte list"

text \<open>
  \<open>strings.TrimSpace\<close> on a string of ASCII bytes: the white space of ASCII (tab, line
  feed, vertical tab, form feed, carriage return, space) is removed at both ends. Go
  decodes UTF-8 once it meets a byte from 0x80 on and then removes Unicode white space
  too; this model leaves such bytes in place, so it is TrimSpace on strings whose bytes
  are all below 0x80.
\<close>

definition asciiSpace :: "byte \<Rightarrow> bool" where
  "asciiSpace c = (c = 0x09 \<or> c = 0x0A \<or> c = 0x0B \<or> c = 0x0C \<or> c = 0x0D \<or> c = 0x20)"

definition TrimSpace :: "byte list \<Rightarrow> byte list" where
  "TrimSpace s = rev (dropWhile asciiSpace (rev (dropWhile asciiSpace s)))"

text \<open>
  \<open>decodeRotateEvent(data, binlogVersion)\<close>; the error it returns is always nil.
  \<open>Position\<close> keeps the zero value of the fresh struct unless \<open>binlogVersion > 1\<close>.
\<close>

definition decodeRotateEvent :: "slice \<Rightarrow> int \<Rightarrow> BinRotateEvent option" where
  "decodeRotateEvent data binlogVersion = do {
     (position, pos) \<leftarrow>
       (if binlogVersion > 1 then do {
          p \<leftarrow> Uint64 data;
          Some (p, 8)
        } else Some (0, 0));
     name \<leftarrow> sl_from data pos;
     Some \<lparr>Position = position, FileName = TrimSpace (elems name)\<rparr>
   }"

text \<open>\<open>decodeUnSupportEvent(data)\<close> keeps the bytes.\<close>

definition decodeUnSupportEvent :: "slice \<Rightarrow> byte list" where
  "decodeUnSupportEvent data = elems data"

datatype BinEventBody =
    FmtDescBody BinFmtDescEvent
  | QueryBody BinQueryEvent
  | XIDBody "64 word"
  | IntvarBody BinIntvarEvent
  | RotateBody BinRotateEvent
  | TableMapBody BinTableMapEvent
  | RowsBody BinRowsEvent
  | UnParsedBody "byte list"

record BinEvent =
  Header :: "BinEventHeader option"
  Body :: "BinEventBody option"
  ChecksumType :: byte
  ChecksumVal :: "byte list"

record BinaryLogInfo =
  description :: "BinFmtDescEvent option"
  tableInfo :: "64 word \<rightharpoonup> BinTableMapEvent"

text \<open>
  \<open>event.Validation(bin, header, body)\<close>. The method writes \<open>ChecksumType\<close> and
  \<open>ChecksumVal\<close> into the event, so the result is the event after the call, the body
  returned and the error. The body returned is \<open>body[:index+1]\<close>.
\<close>

definition Validation ::
  "externals \<Rightarrow> BinEvent \<Rightarrow> BinaryLogInfo option \<Rightarrow> slice \<Rightarrow> slice
     \<Rightarrow> (BinEvent \<times> slice \<times> error option) option" where
  "Validation X event bin header body =
     (case bin of
        None \<Rightarrow> Some (event, body, Some ErrEmptyBinaryLogInfo)
      | Some bi \<Rightarrow>
         (case Header event of
            None \<Rightarrow> Some (event, body, Some ErrEmptyEventHeader)
          | Some h \<Rightarrow>
             if len body + len header \<noteq> EventSize h then Some (event, body, Some ErrEventSize)
             else if (case description bi of None \<Rightarrow> False | Some d \<Rightarrow> hasCheckSum d) then do {
               let index = len body - binlogChecksumLength - 1;
               ct \<leftarrow> idx body index;
               cv \<leftarrow> sl_from body (index + 1);
               let event = event\<lparr>ChecksumType := ct, ChecksumVal := elems cv\<rparr>;
               body \<leftarrow> sl_to body (index + 1);
               if \<not> ChecksumValidate X ct (elems cv) (elems header @ elems body) \<or> len cv \<noteq> 4
               then Some (event, body, Some ErrChecksum)
               else Some (event, body, None)
             }
             else Some (event, body, None)))"

section \<open>decoder.go\<close>

text \<open>
  \<open>time.Time\<close>: \<open>Unix\<close> is the number of seconds since 1970; the zero value is the
  first instant of the year 1, 62135596800 seconds earlier, and \<open>IsZero\<close> recognises it.
\<close>

record Time =
  Unix :: int
  nsec :: int

definition zeroTime :: Time where
  "zeroTime = \<lparr>Unix = - 62135596800, nsec = 0\<rparr>"

definition IsZero :: "Time \<Rightarrow> bool" where
  "IsZero t = (Unix t = - 62135596800 \<and> nsec t = 0)"

record BinReaderOption =
  StartPos :: int
  EndPos :: int
  StartTime :: Time
  EndTime :: Time

text \<open>
  \<open>option.Start(header)\<close> and \<open>option.Stop(header)\<close>; \<open>None\<close> is the nil option.
  \<open>time.Unix(header.Timestamp, 0).Unix()\<close> is \<open>header.Timestamp\<close>.
\<close>

definition Start :: "BinReaderOption option \<Rightarrow> BinEventHeader \<Rightarrow> bool" where
  "Start option header =
     (case option of
        None \<Rightarrow> True
      | Some opt \<Rightarrow>
          if StartPos opt \<noteq> 0 \<and> StartPos opt \<le> LogPos header - EventSize header then True
          else if Unix (StartTime opt) \<le> Timestamp header then True
          else False)"

definition Stop :: "BinReaderOption option \<Rightarrow> BinEventHeader \<Rightarrow> bool" where
  "Stop option header =
     (case option of
        None \<Rightarrow> False
      | Some opt \<Rightarrow>
          if EndPos opt \<noteq> 0 \<and> EndPos opt < LogPos header then True
          else if \<not> IsZero (EndTime opt) \<and> Unix (EndTime opt) \<le> Timestamp header then True
          else False)"

text \<open>
  The decoder: its options, the bytes its reader has still to deliver, and the
  \<open>BinaryLogInfo\<close> it embeds.
\<close>

record BinFileDecoder =
  Option :: "BinReaderOption option"
  buf :: "byte list"
  info :: BinaryLogInfo

definition binFileHeader :: "byte list" where
  "binFileHeader = [254, 98, 105, 110]"

definition defaultEventHeaderSize :: int where
  "defaultEventHeaderSize = 19"

text \<open>The case list of the row events in the \<open>switch\<close> of \<open>DecodeEvent\<close>.\<close>

definition isRowsEvent :: "byte \<Rightarrow> bool" where
  "isRowsEvent t =
     (t = WriteRowsEventV0 \<or> t = UpdateRowsEventV0 \<or> t = DeleteRowsEventV0
      \<or> t = WriteRowsEventV1 \<or> t = UpdateRowsEventV1 \<or> t = DeleteRowsEventV1
      \<or> t = WriteRowsEventV2 \<or> t = UpdateRowsEventV2 \<or> t = DeleteRowsEventV2)"

text \<open>
  The \<open>switch\<close> of \<open>DecodeEvent\<close> and the statements after it: the body decoder of the
  event type is run on the validated data, the decoder's description or table registry
  is updated, and the event is returned with its body.
\<close>

definition decodeBody ::
  "externals \<Rightarrow> BinFileDecoder \<Rightarrow> BinEvent \<Rightarrow> BinEventHeader \<Rightarrow> slice
     \<Rightarrow> ((BinEvent option \<times> error option) \<times> BinFileDecoder) option" where
  "decodeBody X decoder event header data =
     (let t = EventType header; bi = info decoder in
      if t = FormatDescriptionEvent then do {
        d \<leftarrow> decodeFmtDescEvent X data;
        Some ((Some (event\<lparr>Body := Some (FmtDescBody d)\<rparr>), None),
              decoder\<lparr>info := bi\<lparr>description := Some d\<rparr>\<rparr>)
      }
      else if t = QueryEvent then do {
        d \<leftarrow> description bi;
        q \<leftarrow> decodeQueryEvent data (BinlogVersion d);
        Some ((Some (event\<lparr>Body := Some (QueryBody q)\<rparr>), None), decoder)
      }
      else if t = XIDEvent then do {
        x \<leftarrow> decodeXIDEvent data;
        Some ((Some (event\<lparr>Body := Some (XIDBody x)\<rparr>), None), decoder)
      }
      else if t = IntvarEvent then do {
        v \<leftarrow> decodeIntvarEvent data;
        Some ((Some (event\<lparr>Body := Some (IntvarBody v)\<rparr>), None), decoder)
      }
      else if t = RotateEvent then do {
        d \<leftarrow> description bi;
        r \<leftarrow> decodeRotateEvent data (BinlogVersion d);
        Some ((Some (event\<lparr>Body := Some (RotateBody r)\<rparr>), None), decoder)
      }
      else if t = TableMapEvent then do {
        (tm, err) \<leftarrow> decodeTableMapEvent data (description bi);
        case err of
          Some e \<Rightarrow> Some ((None, Some e), decoder)
        | None \<Rightarrow> do {
            m \<leftarrow> tm;
            Some ((Some (event\<lparr>Body := Some (TableMapBody m)\<rparr>), None),
                  decoder\<lparr>info := bi\<lparr>tableInfo := (tableInfo bi)(tm_TableID m \<mapsto> m)\<rparr>\<rparr>)
          }
      }
      else if isRowsEvent t then do {
        r \<leftarrow> decodeRowsEvent data (description bi) t;
        Some ((Some (event\<lparr>Body := Some (RowsBody r)\<rparr>), None), decoder)
      }
      else if t = PreviousGTIDEvent \<or> t = AnonymousGTIDEvent then
        Some ((Some (event\<lparr>Body := Some (UnParsedBody (decodeUnSupportEvent data))\<rparr>), None),
              decoder)
      else if t = UnknownEvent then Some ((None, Some ErrUnknownEvent), decoder)
      else Some ((None, Some ErrNotSupport), decoder))"

text \<open>
  The first statements of \<open>DecodeEvent\<close>: the header length is the default one until
  a format description is there.
\<close>

definition headerLength :: "BinaryLogInfo \<Rightarrow> int" where
  "headerLength bi =
     (case description bi of
        None \<Rightarrow> defaultEventHeaderSize
      | Some d \<Rightarrow> EventHeaderLength d)"

text \<open>
  \<open>decoder.DecodeEvent()\<close>: the event (or nil), the error (or nil) and the decoder
  after the call. An event that is not a format description and for which \<open>Start\<close> is
  false is read and dropped: the function returns \<open>nil, err\<close> with the nil error of the
  read before it.
\<close>

definition DecodeEvent ::
  "externals \<Rightarrow> BinFileDecoder \<Rightarrow> ((BinEvent option \<times> error option) \<times> BinFileDecoder) option" where
  "DecodeEvent X decoder = do {
     let event = \<lparr>Header = None, Body = None, ChecksumType = 0, ChecksumVal = []\<rparr>;
     let eventHeaderLength = headerLength (info decoder);
     (headerData, err, rd) \<leftarrow> ReadNBytes (buf decoder) eventHeaderLength;
     let decoder = decoder\<lparr>buf := rd\<rparr>;
     case err of
       Some e \<Rightarrow> Some ((None, Some e), decoder)
     | None \<Rightarrow> do {
         (hdr, err) \<leftarrow> decodeEventHeader headerData eventHeaderLength;
         case err of
           Some e \<Rightarrow> Some ((None, Some e), decoder)
         | None \<Rightarrow> do {
             header \<leftarrow> hdr;
             let event = event\<lparr>Header := Some header\<rparr>;
             if \<not> EventType2Str (EventType header)
             then Some ((None, Some ErrUnknownEventType), decoder)
             else do {
               let readDataLength = EventSize header - eventHeaderLength;
               (data, err, rd) \<leftarrow> ReadNBytes (buf decoder) readDataLength;
               let decoder = decoder\<lparr>buf := rd\<rparr>;
               case err of
                 Some e \<Rightarrow> Some ((None, Some e), decoder)
               | None \<Rightarrow>
                   if EventType header \<noteq> FormatDescriptionEvent
                      \<and> \<not> Start (Option decoder) header
                   then Some ((None, None), decoder)
                   else do {
                     (event, data, err) \<leftarrow>
                        Validation X event (Some (info decoder)) headerData data;
                     case err of
                       Some e \<Rightarrow> Some ((Some event, Some e), decoder)
                     | None \<Rightarrow> decodeBody X decoder event header data
                   }
             }
           }
       }
   }"

text \<open>
  A call of \<open>DecodeEvent\<close> that returns without an error has read a header of at
  least four bytes, so the reader is shorter after it: the loop of the walk ends.
\<close>

lemma decodeBody_buf:
  "decodeBody X d ev h data = Some (r, d') \<Longrightarrow> buf d' = buf d"
  by (auto simp: decodeBody_def Let_def split: if_splits option.splits prod.splits Option.bind_splits)

lemma decodeEventHeader_pos:
  "decodeEventHeader data n = Some (Some h, None) \<Longrightarrow> 4 \<le> len data"
  by (auto simp: decodeEventHeader_def Let_def sl_from_def Uint32_def len_def split: if_splits Option.bind_splits)

lemma ReadNBytes_len:
  "ReadNBytes rd n = Some (data, None, rd') \<Longrightarrow> length rd' + nat (len data) = length rd"
  by (auto simp: ReadNBytes_def len_def mk_def split: if_splits)

lemma ReadNBytes_le:
  "ReadNBytes rd n = Some (data, e, rd') \<Longrightarrow> length rd' \<le> length rd"
  by (auto simp: ReadNBytes_def len_def mk_def split: if_splits)

lemma DecodeEvent_shrinks:
  assumes "DecodeEvent X d = Some ((ev, None), d')"
  shows "length (buf d') < length (buf d)"
  using assms
  apply (simp add: DecodeEvent_def headerLength_def Let_def split: Option.bind_splits prod.splits option.splits if_splits)
  apply (auto dest!: decodeBody_buf decodeEventHeader_pos ReadNBytes_len)
  done

text \<open>
  \<open>decoder.WalkEvent(f)\<close>. The consumer \<open>f\<close> is a Go closure: it is given its own
  state \<open>c\<close>, the event, and returns \<open>(isContinue, err)\<close> with its state after the
  call. The walk returns its error (nil at the end of the stream, at the stop condition
  and when the consumer asks to stop without an error), the decoder and the consumer's
  state as they are when it returns.
\<close>

function WalkEvent ::
  "externals \<Rightarrow> ('c \<Rightarrow> BinEvent \<Rightarrow> (bool \<times> error option) \<times> 'c) \<Rightarrow> 'c \<Rightarrow> BinFileDecoder
     \<Rightarrow> (error option \<times> BinFileDecoder \<times> 'c) option" where
  "WalkEvent X f c decoder =
     (case DecodeEvent X decoder of
        None \<Rightarrow> None
      | Some ((event, err), decoder') \<Rightarrow>
         (case err of
            Some e \<Rightarrow> if e = EOF then Some (None, decoder', c) else Some (Some e, decoder', c)
          | None \<Rightarrow>
             (case event of
                None \<Rightarrow> WalkEvent X f c decoder'
              | Some ev \<Rightarrow>
                 (case (case Header ev of
                          Some h \<Rightarrow> Some (Stop (Option decoder') h)
                        | None \<Rightarrow> (if Option decoder' = None then Some False else None)) of
                    None \<Rightarrow> None
                  | Some stop \<Rightarrow>
                     if stop then Some (None, decoder', c)
                     else (case f c ev of
                             ((isContinue, err), c') \<Rightarrow>
                               if \<not> isContinue \<or> err \<noteq> None then Some (err, decoder', c')
                               else WalkEvent X f c' decoder')))))"
  by pat_completeness auto
termination
  by (relation "measure (\<lambda>(X, f, c, d). length (buf d))") (auto dest: DecodeEvent_shrinks)

section \<open>Events in the stream\<close>

text \<open>
  The reader of the decoder stands before an event: the next bytes are a header of the
  current header length that \<open>decodeEventHeader\<close> accepts, with a known event type,
  followed by the body that the header's event size announces.
\<close>

definition atEvent ::
  "BinFileDecoder \<Rightarrow> byte list \<Rightarrow> BinEventHeader \<Rightarrow> byte list \<Rightarrow> byte list \<Rightarrow> bool" where
  "atEvent d hb h body rest =
     (buf d = hb @ body @ rest \<and>
      int (length hb) = headerLength (info d) \<and>
      decodeEventHeader (mk hb) (headerLength (info d)) = Some (Some h, None) \<and>
      EventType2Str (EventType h) \<and>
      int (length body) = EventSize h - headerLength (info d))"

text \<open>The event as \<open>DecodeEvent\<close> holds it once the header is decoded.\<close>

definition newEvent :: "BinEventHeader \<Rightarrow> BinEvent" where
  "newEvent h = \<lparr>Header = Some h, Body = None, ChecksumType = 0, ChecksumVal = []\<rparr>"

section \<open>Sample inputs\<close>

text \<open>
  The format description of a MySQL 5.5 server, as \<open>decodeFmtDescEvent\<close> returns it
  (the version string keeps its padding), with the 27 header lengths of that release.
\<close>

definition fd55 :: BinFmtDescEvent where
  "fd55 = \<lparr>BinlogVersion = 4,
            MySQLVersion = [0x35,0x2e,0x35,0x2e,0x36,0x32,0x2d,0x6c,0x6f,0x67,
                            0,0,0,0,0,0,0,0,0,0, 0,0,0,0,0,0,0,0,0,0,
                            0,0,0,0,0,0,0,0,0,0, 0,0,0,0,0,0,0,0,0,0],
            CreateTime = 100, EventHeaderLength = 19,
            EventTypeHeader = [56,13,0,8,0,18,0,4,4,4,4,18,0,0,84,0,4,26,8,0,0,0,8,8,8,2,0],
            hasCheckSum = False\<rparr>"

text \<open>
  Bodies of row events on table 42, with flags 1: \<open>upd0\<close> has two columns and a byte
  0xff for each column bitmap, \<open>updmax\<close> announces $2^{64}-1$ columns.
\<close>

definition upd0 :: "byte list" where
  "upd0 = [0x2a,0,0,0,0,0, 0x01,0x00, 0x02, 0xff, 0xff, 0xfc, 0x01,0,0,0, 0x02,0,0,0]"

definition updmax :: "byte list" where
  "updmax = [0x2a,0,0,0,0,0, 0x01,0x00, 0xfe, 0xff,0xff,0xff,0xff,0xff,0xff,0xff,0xff, 0xff, 0xff, 0xfc]"

text \<open>
  A format description with the header lengths in the layout of a MySQL 5.6 server; the
  table keeps the five checksum bytes that end the event, since the first format
  description of a stream is decoded before any checksum is split off.
\<close>

definition fd56 :: BinFmtDescEvent where
  "fd56 = \<lparr>BinlogVersion = 4,
            MySQLVersion = [0x35,0x2e,0x36,0x2e,0x34,0x30,0x2d,0x6c,0x6f,0x67,
                            0,0,0,0,0,0,0,0,0,0, 0,0,0,0,0,0,0,0,0,0,
                            0,0,0,0,0,0,0,0,0,0, 0,0,0,0,0,0,0,0,0,0],
            CreateTime = 100, EventHeaderLength = 19,
            EventTypeHeader = [56,13,0,8,0,18,0,4,4,4,4,18,0,0,92,0,4,26,8,0,0,0,8,8,8,2,0,
                               0,0,10,10,10,25,25,0, 1, 0x11,0x22,0x33,0x44],
            hasCheckSum = True\<rparr>"

text \<open>
  The body of a row event of version 2 on table 42: two bytes of extra data, nine
  columns, two bitmaps of two bytes.
\<close>

definition upd2 :: "byte list" where
  "upd2 = [0x2a,0,0,0,0,0, 0x01,0x00, 0x04,0x00, 0xaa,0xbb, 0x09, 0xff,0x01, 0x0f,0x00,
           0xfc, 0x01,0,0,0, 0x02,0,0,0]"

text \<open>
  A stream of a MySQL 5.5 server without checksums: the format description event
  \<open>fde55\<close> (103 bytes, ending at offset 107) and a Write event of version 1 on table 42
  (\<open>wr1\<close>, 38 bytes, from offset 107 to 145). \<open>X0\<close> gives the two functions that are
  not in the source files: no checksum for this server version, a validator that accepts.
  \<open>collect\<close> is a consumer that keeps every event it is given and goes on.
\<close>

definition X0 :: externals where
  "X0 = \<lparr>hasChecksum = (\<lambda>v. False), ChecksumValidate = (\<lambda>t v d. True)\<rparr>"

definition fde55 :: "byte list" where
  "fde55 = [0x64,0,0,0, 0x0f, 0x01,0,0,0, 0x67,0,0,0, 0x6b,0,0,0, 0,0,
            0x04,0x00,
            0x35,0x2e,0x35,0x2e,0x36,0x32,0x2d,0x6c,0x6f,0x67,
            0,0,0,0,0,0,0,0,0,0, 0,0,0,0,0,0,0,0,0,0,
            0,0,0,0,0,0,0,0,0,0, 0,0,0,0,0,0,0,0,0,0,
            0x64,0,0,0,
            0x13,
            56,13,0,8,0,18,0,4,4,4,4,18,0,0,84,0,4,26,8,0,0,0,8,8,8,2,0]"

definition fdeHeader :: BinEventHeader where
  "fdeHeader = \<lparr>Timestamp = 100, EventType = 15, ServerID = 1, EventSize = 103, LogPos = 107, Flag = 0\<rparr>"

definition fdeEvent :: BinEvent where
  "fdeEvent = \<lparr>Header = Some fdeHeader, Body = Some (FmtDescBody fd55), ChecksumType = 0, ChecksumVal = []\<rparr>"

definition wr1 :: "byte list" where
  "wr1 = [0x65,0,0,0, 0x17, 0x01,0,0,0, 0x26,0,0,0, 0x91,0,0,0, 0,0,
          0x2a,0,0,0,0,0, 0x01,0x00, 0x02, 0xff, 0xfc, 0x01,0,0,0, 0x02,0,0,0]"

definition wr1Header :: BinEventHeader where
  "wr1Header = \<lparr>Timestamp = 101, EventType = 23, ServerID = 1, EventSize = 38, LogPos = 145, Flag = 0\<rparr>"

definition wr1Event :: BinEvent where
  "wr1Event = \<lparr>Header = Some wr1Header,
      Body = Some (RowsBody \<lparr>Version = 1, rows_TableID = 42, rows_tableIDLen = 6, rows_Flags = 1,
                 ExtraData = [], rows_ColumnCount = 2, ColumnsBitmap1 = [0xff], ColumnsBitmap2 = [],
                 tableMap = None\<rparr>),
      ChecksumType = 0, ChecksumVal = []\<rparr>"

definition collect :: "BinEvent list \<Rightarrow> BinEvent \<Rightarrow> (bool \<times> error option) \<times> BinEvent list" where
  "collect c ev = ((True, None), c @ [ev])"

text \<open>
  More events of the sample stream, each of them placed after the format description
  (offset 107): a table-map event for table 42 (\<open>tm1\<close>, one column of type 3, a null
  bitmap of one byte), the same with a null bitmap of two bytes where one is expected
  (\<open>tmbad\<close>), an XID event (\<open>xid1\<close>), an XID event that carries four checksum bytes
  (\<open>xidsum\<close>) and an event whose body has two bytes only (\<open>short1\<close>).
\<close>

definition tm1 :: "byte list" where
  "tm1 = [0x65,0,0,0, 0x13, 0x01,0,0,0, 0x25,0,0,0, 0x90,0,0,0, 0,0,
          0x2a,0,0,0,0,0, 0x01,0x00, 0x01,0x64,0x00, 0x01,0x74,0x00, 0x01, 0x03, 0x00, 0x00]"

definition tm1Header :: BinEventHeader where
  "tm1Header = \<lparr>Timestamp = 101, EventType = 19, ServerID = 1, EventSize = 37, LogPos = 144, Flag = 0\<rparr>"

definition tm1Map :: BinTableMapEvent where
  "tm1Map = \<lparr>tm_TableID = 42, tm_tableIDLen = 6, tm_Flags = 1, tm_Schema = [0x64],
             tm_Table = [0x74], tm_ColumnCount = 1, ColumnTypeDef = [3],
             ColumnMetaDef = [zeroColumnType], NullBitmap = [0]\<rparr>"

definition short1 :: "byte list" where
  "short1 = [0x65,0,0,0, 0x10, 0x01,0,0,0, 0x15,0,0,0, 0x80,0,0,0, 0,0, 0x01,0x02]"

definition short1Header :: BinEventHeader where
  "short1Header = \<lparr>Timestamp = 101, EventType = 16, ServerID = 1, EventSize = 21, LogPos = 128, Flag = 0\<rparr>"

definition tmbad :: "byte list" where
  "tmbad = [0x65,0,0,0, 0x13, 0x01,0,0,0, 0x26,0,0,0, 0x91,0,0,0, 0,0,
            0x2a,0,0,0,0,0, 0x01,0x00, 0x01,0x64,0x00, 0x01,0x74,0x00, 0x01, 0x03, 0x00, 0x00,0x00]"

definition tmbadMap :: BinTableMapEvent where
  "tmbadMap = \<lparr>tm_TableID = 42, tm_tableIDLen = 6, tm_Flags = 1, tm_Schema = [0x64],
             tm_Table = [0x74], tm_ColumnCount = 1, ColumnTypeDef = [3],
             ColumnMetaDef = [zeroColumnType], NullBitmap = []\<rparr>"

definition xid1 :: "byte list" where
  "xid1 = [0x66,0,0,0, 0x10, 0x01,0,0,0, 0x1b,0,0,0, 0xac,0,0,0, 0,0,
           0x07,0,0,0,0,0,0,0]"

definition xidsum :: "byte list" where
  "xidsum = [0x66,0,0,0, 0x10, 0x01,0,0,0, 0x1f,0,0,0, 0x8a,0,0,0, 0,0,
             0x07,0,0,0,0,0,0,0x09, 0xde,0xad,0xbe,0xef]"

definition xidsumHeader :: BinEventHeader where
  "xidsumHeader = \<lparr>Timestamp = 102, EventType = 16, ServerID = 1, EventSize = 31, LogPos = 138, Flag = 0\<rparr>"

text \<open>
  Options of the reader: a start time in the future, stop positions before, below and at
  the end of \<open>wr1\<close>, and a start position beyond it with no start time.
\<close>

definition later :: BinReaderOption where
  "later = \<lparr>StartPos = 0, EndPos = 0, StartTime = \<lparr>Unix = 2000000000, nsec = 0\<rparr>, EndTime = zeroTime\<rparr>"

definition until50 :: BinReaderOption where
  "until50 = \<lparr>StartPos = 0, EndPos = 50, StartTime = zeroTime, EndTime = zeroTime\<rparr>"

definition until144 :: BinReaderOption where
  "until144 = \<lparr>StartPos = 0, EndPos = 144, StartTime = zeroTime, EndTime = zeroTime\<rparr>"

definition until145 :: BinReaderOption where
  "until145 = \<lparr>StartPos = 0, EndPos = 145, StartTime = zeroTime, EndTime = zeroTime\<rparr>"

definition from200 :: BinReaderOption where
  "from200 = \<lparr>StartPos = 200, EndPos = 0, StartTime = zeroTime, EndTime = zeroTime\<rparr>"



section \<open>Properties\<close>

lemmas event_type_defs =
  UnknownEvent_def QueryEvent_def RotateEvent_def IntvarEvent_def
  FormatDescriptionEvent_def XIDEvent_def TableMapEvent_def
  WriteRowsEventV0_def UpdateRowsEventV0_def DeleteRowsEventV0_def
  WriteRowsEventV1_def UpdateRowsEventV1_def DeleteRowsEventV1_def
  WriteRowsEventV2_def UpdateRowsEventV2_def DeleteRowsEventV2_def
  AnonymousGTIDEvent_def PreviousGTIDEvent_def

lemmas field_type_defs =
  MySQLTypeDecimal_def MySQLTypeTiny_def MySQLTypeShort_def MySQLTypeLong_def
  MySQLTypeFloat_def MySQLTypeDouble_def MySQLTypeNull_def MySQLTypeTimestamp_def
  MySQLTypeLonglong_def MySQLTypeInt24_def MySQLTypeDate_def MySQLTypeTime_def
  MySQLTypeDatetime_def MySQLTypeYear_def MySQLTypeNewDate_def MySQLTypeVarchar_def
  MySQLTypeBit_def MySQLTypeTimestamp2_def MySQLTypeDatetime2_def MySQLTypeTime2_def
  MySQLTypeJSON_def MySQLTypeNewDecimal_def MySQLTypeEnum_def MySQLTypeSet_def
  MySQLTypeTinyBlob_def MySQLTypeMediumBlob_def MySQLTypeLongBlob_def MySQLTypeBlob_def
  MySQLTypeVarString_def MySQLTypeString_def MySQLTypeGeometry_def


lemma le_nat_bound: "le_nat bs < 256 ^ length bs"
proof (induction bs)
  case Nil
  show ?case by simp
next
  case (Cons b bs)
  have "unat b < 256" using unsigned_less [of b] by simp
  moreover from Cons have "le_nat bs + 1 \<le> 256 ^ length bs" by simp
  then have "256 * (le_nat bs + 1) \<le> 256 * 256 ^ length bs" by (rule mult_le_mono2)
  ultimately show ?case by simp
qed

lemmas slice_defs =
  mk_def len_def cap_def idx_def sl_from_def sl_def sl_to_def Uint16_def Uint32_def Uint64_def

subsection \<open>The event header\<close>

lemma uint_le_nat32: "length bs \<le> 4 \<Longrightarrow> uint (of_nat (le_nat bs) :: 32 word) = int (le_nat bs)"
proof -
  assume l: "length bs \<le> 4"
  have "le_nat bs < 256 ^ length bs" by (rule le_nat_bound)
  also have "(256::nat) ^ length bs \<le> 256 ^ 4" using l by (intro power_increasing) auto
  finally have "le_nat bs < 2 ^ 32" by simp
  then show ?thesis by (simp add: uint_nat unat_of_nat)
qed

text \<open>
  Claim C6. The header codec fails when fewer than the header width of bytes are
  supplied. Otherwise (on at least 13 bytes, and at least 19 when the width exceeds 13) it
  reads, in order, the 4-byte little-endian timestamp, the 1-byte event type, the 4-byte
  server id and the 4-byte event size, and then, only when the width exceeds 13, the
  4-byte log position and the 2-byte flags, which are zero otherwise. The 19 bytes of
  scenario A decode to timestamp 100, event type 2, server id 1, event size 19, log
  position 19 and flags 0.
\<close>

theorem header_layout:
  "(len data < hsize \<longrightarrow> decodeEventHeader data hsize = Some (None, Some ErrInvalidHeaderSize)) \<and>
   (hsize \<le> len data \<and> 13 \<le> len data \<and> (13 < hsize \<longrightarrow> 19 \<le> len data) \<longrightarrow>
      decodeEventHeader data hsize =
        Some (Some \<lparr>Timestamp = int (le_nat (take 4 (elems data))),
                     EventType = elems data ! 4,
                     ServerID = int (le_nat (take 4 (drop 5 (elems data)))),
                     EventSize = int (le_nat (take 4 (drop 9 (elems data)))),
                     LogPos = (if 13 < hsize then int (le_nat (take 4 (drop 13 (elems data)))) else 0),
                     Flag = (if 13 < hsize then of_nat (le_nat (take 2 (drop 17 (elems data)))) else 0)\<rparr>,
              None)) \<and>
   decodeEventHeader (mk [0x64,0,0,0, 0x02, 0x01,0,0,0, 0x13,0,0,0, 0x13,0,0,0, 0x00,0x00]) 19 =
     Some (Some \<lparr>Timestamp = 100, EventType = 2, ServerID = 1, EventSize = 19, LogPos = 19,
                  Flag = 0\<rparr>, None)"
proof (intro conjI impI)
  assume "len data < hsize"
  then show "decodeEventHeader data hsize = Some (None, Some ErrInvalidHeaderSize)"
    by (simp add: decodeEventHeader_def)
next
  assume a: "hsize \<le> len data \<and> 13 \<le> len data \<and> (13 < hsize \<longrightarrow> 19 \<le> len data)"
  show "decodeEventHeader data hsize =
        Some (Some \<lparr>Timestamp = int (le_nat (take 4 (elems data))),
                     EventType = elems data ! 4,
                     ServerID = int (le_nat (take 4 (drop 5 (elems data)))),
                     EventSize = int (le_nat (take 4 (drop 9 (elems data)))),
                     LogPos = (if 13 < hsize then int (le_nat (take 4 (drop 13 (elems data)))) else 0),
                     Flag = (if 13 < hsize then of_nat (le_nat (take 2 (drop 17 (elems data)))) else 0)\<rparr>,
              None)"
  proof (cases "13 < hsize")
    case True
    with a have "19 \<le> len data" by simp
    with True a show ?thesis
      by (auto simp add: decodeEventHeader_def slice_defs Let_def uint_le_nat32)
  next
    case False
    with a show ?thesis
      by (auto simp add: decodeEventHeader_def slice_defs Let_def uint_le_nat32)
  qed
next
  show "decodeEventHeader (mk [0x64,0,0,0, 0x02, 0x01,0,0,0, 0x13,0,0,0, 0x13,0,0,0, 0x00,0x00]) 19 =
     Some (Some \<lparr>Timestamp = 100, EventType = 2, ServerID = 1, EventSize = 19, LogPos = 19,
                  Flag = 0\<rparr>, None)"
    by (simp add: decodeEventHeader_def slice_defs Let_def)
qed

theorem header_layout_witness:
  "len (mk [1,2,3,4,5]) < 19 \<and>
   decodeEventHeader (mk [1,2,3,4,5]) 19 = Some (None, Some ErrInvalidHeaderSize) \<and>
   13 \<le> len (mk [1,0,0,0, 4, 2,0,0,0, 13,0,0,0]) \<and>
   decodeEventHeader (mk [1,0,0,0, 4, 2,0,0,0, 13,0,0,0]) 13 =
     Some (Some \<lparr>Timestamp = 1, EventType = 4, ServerID = 2, EventSize = 13, LogPos = 0, Flag = 0\<rparr>, None) \<and>
   19 \<le> len (mk [1,0,0,0, 4, 2,0,0,0, 19,1,0,0, 0x2a,0,0,0, 1,1]) \<and>
   decodeEventHeader (mk [1,0,0,0, 4, 2,0,0,0, 19,1,0,0, 0x2a,0,0,0, 1,1]) 19 =
     Some (Some \<lparr>Timestamp = 1, EventType = 4, ServerID = 2, EventSize = 275, LogPos = 42, Flag = 257\<rparr>, None)"
  using header_layout [where data = "mk [1,2,3,4,5]" and hsize = 19]
        header_layout [where hsize = 13 and data = "mk [1,0,0,0, 4, 2,0,0,0, 13,0,0,0]"]
        header_layout [where hsize = 19 and data = "mk [1,0,0,0, 4, 2,0,0,0, 19,1,0,0, 0x2a,0,0,0, 1,1]"]
  by (simp add: mk_def len_def)


subsection \<open>Row events: the column bitmaps\<close>

lemma wrap_int_id: "- (2 ^ 63) \<le> x \<Longrightarrow> x < 2 ^ 63 \<Longrightarrow> wrap_int x = x"
  by (simp add: wrap_int_def)

lemma int_of_u64_small: "uint w < 2 ^ 63 \<Longrightarrow> int_of_u64 w = uint w"
proof -
  assume a: "uint w < 2 ^ 63"
  have "(0::int) \<le> uint w" by simp
  then have "- (2 ^ 63) \<le> uint w" by (rule order_trans [rotated]) simp
  then show ?thesis using a unfolding int_of_u64_def by (rule wrap_int_id)
qed


lemma uint_byte_6: "(uint (x :: byte) = 6) = (x = 6)"
proof
  assume "uint x = 6"
  then have "uint x = uint (6 :: byte)" by simp
  then show "x = 6" by (simp only: word_uint_eq_iff)
next
  assume "x = 6" then show "uint x = 6" by simp
qed

lemma idx_mk: "k < length bs \<Longrightarrow> idx (mk bs) (int k) = Some (bs ! k)"
  by (simp add: idx_def mk_def len_def)

lemma Rows_Init_eq:
  assumes "unat (typ - 1) < length (EventTypeHeader fd)"
  shows "Rows_Init (Some fd) typ =
     Some (if EventTypeHeader fd ! unat (typ - 1) = 6 then 4 else 6, rowsVersion typ)"
proof -
  have "idx (mk (EventTypeHeader fd)) (uint (typ - 1)) = Some (EventTypeHeader fd ! unat (typ - 1))"
    using idx_mk [OF assms] by (simp only: uint_nat)
  then show ?thesis
    by (simp add: Rows_Init_def rowsVersion_def Let_def uint_byte_6)
qed

lemma LengthEncodedInt_prefix:
  assumes "LengthEncodedInt (mk ccb) = Some (cc, nl, int (length ccb))"
  shows "LengthEncodedInt \<lparr>elems = ccb @ post, spare = sp\<rparr> = Some (cc, nl, int (length ccb))"
  using assms
  by (cases ccb) (auto simp: LengthEncodedInt_def mk_def split: if_splits)

lemma bitmapByteSize_ok:
  assumes "uint (cc :: 64 word) \<le> 2 ^ 63 - 8"
  shows "bitmapByteSize (int_of_u64 cc) = int ((unat cc + 7) div 8)"
proof -
  have u: "int_of_u64 cc = uint cc" using assms by (intro int_of_u64_small) simp
  have "0 \<le> uint cc" by simp
  then have w: "wrap_int (uint cc + 7) = uint cc + 7" using assms by (intro wrap_int_id) simp_all
  have "(uint cc + 7) sdiv 8 = (uint cc + 7) div 8"
    by (simp add: signed_divide_int_def sgn_if)
  moreover have "uint cc = int (unat cc)" by (rule uint_nat)
  moreover have "(int (unat cc) + 7) div 8 = int ((unat cc + 7) div 8)" by (simp add: zdiv_int)
  ultimately show ?thesis using u w by (simp only: bitmapByteSize_def)
qed


lemma Uint16_pre: "length x = 2 \<Longrightarrow> Uint16 \<lparr>elems = x @ post, spare = sp\<rparr> = Some (of_nat (le_nat x))"
  by (simp add: Uint16_def len_def)

lemma sl_from_pre:
  "pos = int (length pre) \<Longrightarrow>
   sl_from \<lparr>elems = pre @ post, spare = sp\<rparr> pos = Some \<lparr>elems = post, spare = sp\<rparr>"
  by (simp add: sl_from_def len_def)

lemma sl_mid:
  "pos = int (length pre) \<Longrightarrow> hi = pos + int (length x) \<Longrightarrow>
   sl \<lparr>elems = pre @ x @ post, spare = sp\<rparr> pos hi = Some \<lparr>elems = x, spare = post @ sp\<rparr>"
  by (simp add: sl_def cap_def)

lemma rows_noextra:
  assumes tbl: "unat (typ - 1) < length (EventTypeHeader fd)"
    and tid: "int (length tid) = (if EventTypeHeader fd ! unat (typ - 1) = 6 then 4 else 6)"
    and fl: "length fl = 2"
    and ver: "rowsVersion typ \<noteq> 2"
    and cc: "LengthEncodedInt (mk ccb) = Some (cc, nl, int (length ccb))"
    and bound: "uint cc \<le> 2 ^ 63 - 8"
    and b1: "length bm1 = (unat cc + 7) div 8"
    and b2: "if typ = UpdateRowsEventV1 \<or> typ = UpdateRowsEventV2
             then length bm2 = (unat cc + 7) div 8 else bm2 = []"
  shows "decodeRowsEvent \<lparr>elems = tid @ fl @ ccb @ bm1 @ bm2 @ rest, spare = sp\<rparr> (Some fd) typ =
     Some \<lparr>Version = rowsVersion typ, rows_TableID = of_nat (le_nat tid),
           rows_tableIDLen = int (length tid), rows_Flags = of_nat (le_nat fl), ExtraData = [],
           rows_ColumnCount = cc, ColumnsBitmap1 = bm1, ColumnsBitmap2 = bm2, tableMap = None\<rparr>"
proof -
  let ?D = "\<lparr>elems = tid @ fl @ ccb @ bm1 @ bm2 @ rest, spare = sp\<rparr>"
  let ?n = "(unat cc + 7) div 8"
  note init = Rows_Init_eq [OF tbl, folded tid]
  note u2 = Uint16_pre [OF fl]
  note li = LengthEncodedInt_prefix [OF cc]
  note bs = bitmapByteSize_ok [OF bound]
  have r1: "sl_to ?D (int (length tid)) = Some \<lparr>elems = tid, spare = (fl @ ccb @ bm1 @ bm2 @ rest) @ sp\<rparr>"
    using sl_mid [of 0 "[]" "int (length tid)" tid] by (simp add: sl_to_def)
  have rf: "\<And>lo pre post. ?D = \<lparr>elems = pre @ post, spare = sp\<rparr> \<Longrightarrow> lo = int (length pre) \<Longrightarrow>
              sl_from ?D lo = Some \<lparr>elems = post, spare = sp\<rparr>"
    by (simp add: sl_from_pre)
  have rs: "\<And>lo hi pre x post. ?D = \<lparr>elems = pre @ x @ post, spare = sp\<rparr> \<Longrightarrow>
              lo = int (length pre) \<Longrightarrow> hi = lo + int (length x) \<Longrightarrow>
              sl ?D lo hi = Some \<lparr>elems = x, spare = post @ sp\<rparr>"
    by (simp add: sl_mid)
  have f2: "\<And>lo. lo = int (length tid) \<Longrightarrow> sl_from ?D lo = Some \<lparr>elems = (fl @ ccb @ bm1 @ bm2 @ rest), spare = sp\<rparr>"
    by (rule rf [where pre = tid]) simp_all
  have f4: "\<And>lo. lo = int (length tid) + 2 \<Longrightarrow>
            sl_from ?D lo = Some \<lparr>elems = ccb @ bm1 @ bm2 @ rest, spare = sp\<rparr>"
    by (rule rf [where pre = "tid @ fl"]) (simp_all add: fl)
  have s5: "\<And>lo hi. lo = int (length tid) + 2 + int (length ccb) \<Longrightarrow> hi = lo + int ?n \<Longrightarrow>
            sl ?D lo hi = Some \<lparr>elems = bm1, spare = (bm2 @ rest) @ sp\<rparr>"
    by (rule rs [where pre = "tid @ fl @ ccb"]) (simp_all add: fl b1)
  have s6: "\<And>lo hi. length bm2 = ?n \<Longrightarrow> lo = int (length tid) + 2 + int (length ccb) + int ?n \<Longrightarrow>
            hi = lo + int ?n \<Longrightarrow>
            sl ?D lo hi = Some \<lparr>elems = bm2, spare = rest @ sp\<rparr>"
    by (rule rs [where pre = "tid @ fl @ ccb @ bm1"]) (simp_all add: fl b1)
  show ?thesis
  proof (cases "typ = UpdateRowsEventV1 \<or> typ = UpdateRowsEventV2")
    case u: True
    with b2 have l2: "length bm2 = ?n" by simp
    show ?thesis
      using ver u
      by (simp add: decodeRowsEvent_def init Let_def bs FixedLengthInt_def r1 f2 u2 li 
            f4 s5 s6 [OF l2])
  next
    case u: False
    with b2 have l2: "bm2 = []" by simp
    show ?thesis
      using ver u
      by (simp add: decodeRowsEvent_def init Let_def bs FixedLengthInt_def u2 li l2
            r1 [unfolded l2 append_Nil] f2 [unfolded l2 append_Nil]
            f4 [unfolded l2 append_Nil] s5 [unfolded l2 append_Nil])
  qed
qed

lemma rows_extra:
  assumes tbl: "unat (typ - 1) < length (EventTypeHeader fd)"
    and tid: "int (length tid) = (if EventTypeHeader fd ! unat (typ - 1) = 6 then 4 else 6)"
    and fl: "length fl = 2"
    and ver: "rowsVersion typ = 2"
    and el: "length el = 2" and ed: "le_nat el = length ed + 2"
    and cc: "LengthEncodedInt (mk ccb) = Some (cc, nl, int (length ccb))"
    and bound: "uint cc \<le> 2 ^ 63 - 8"
    and b1: "length bm1 = (unat cc + 7) div 8"
    and b2: "if typ = UpdateRowsEventV1 \<or> typ = UpdateRowsEventV2
             then length bm2 = (unat cc + 7) div 8 else bm2 = []"
  shows "decodeRowsEvent \<lparr>elems = tid @ fl @ el @ ed @ ccb @ bm1 @ bm2 @ rest, spare = sp\<rparr> (Some fd) typ =
     Some \<lparr>Version = rowsVersion typ, rows_TableID = of_nat (le_nat tid),
           rows_tableIDLen = int (length tid), rows_Flags = of_nat (le_nat fl), ExtraData = ed,
           rows_ColumnCount = cc, ColumnsBitmap1 = bm1, ColumnsBitmap2 = bm2, tableMap = None\<rparr>"
proof -
  let ?D = "\<lparr>elems = tid @ fl @ el @ ed @ ccb @ bm1 @ bm2 @ rest, spare = sp\<rparr>"
  let ?n = "(unat cc + 7) div 8"
  note init = Rows_Init_eq [OF tbl, folded tid]
  note u2 = Uint16_pre [OF fl]
  note li = LengthEncodedInt_prefix [OF cc]
  note bs = bitmapByteSize_ok [OF bound]
  have r1: "sl_to ?D (int (length tid)) = Some \<lparr>elems = tid, spare = (fl @ el @ ed @ ccb @ bm1 @ bm2 @ rest) @ sp\<rparr>"
    using sl_mid [of 0 "[]" "int (length tid)" tid] by (simp add: sl_to_def)
  have rf: "\<And>lo pre post. ?D = \<lparr>elems = pre @ post, spare = sp\<rparr> \<Longrightarrow> lo = int (length pre) \<Longrightarrow>
              sl_from ?D lo = Some \<lparr>elems = post, spare = sp\<rparr>"
    by (simp add: sl_from_pre)
  have rs: "\<And>lo hi pre x post. ?D = \<lparr>elems = pre @ x @ post, spare = sp\<rparr> \<Longrightarrow>
              lo = int (length pre) \<Longrightarrow> hi = lo + int (length x) \<Longrightarrow>
              sl ?D lo hi = Some \<lparr>elems = x, spare = post @ sp\<rparr>"
    by (simp add: sl_mid)
  have f2: "\<And>lo. lo = int (length tid) \<Longrightarrow> sl_from ?D lo = Some \<lparr>elems = (fl @ el @ ed @ ccb @ bm1 @ bm2 @ rest), spare = sp\<rparr>"
    by (rule rf [where pre = tid]) simp_all
  have "length ed + 2 < 65536" using le_nat_bound [of el] el ed by simp
  then have x: "uint ((of_nat (le_nat el) :: 16 word) - 2) = int (length ed)"
    by (simp add: ed uint_nat unat_of_nat)
  note u3 = Uint16_pre [OF el]
  have f3: "\<And>lo. lo = int (length tid) + 2 \<Longrightarrow>
            sl_from ?D lo = Some \<lparr>elems = el @ ed @ ccb @ bm1 @ bm2 @ rest, spare = sp\<rparr>"
    by (rule rf [where pre = "tid @ fl"]) (simp_all add: fl)
  have s3: "\<And>lo hi. lo = int (length tid) + 2 + 2 \<Longrightarrow> hi = lo + int (length ed) \<Longrightarrow>
            sl ?D lo hi = Some \<lparr>elems = ed, spare = (ccb @ bm1 @ bm2 @ rest) @ sp\<rparr>"
    by (rule rs [where pre = "tid @ fl @ el"]) (simp_all add: fl el)
  have f4: "\<And>lo. lo = int (length tid) + 2 + 2 + int (length ed) \<Longrightarrow>
            sl_from ?D lo = Some \<lparr>elems = ccb @ bm1 @ bm2 @ rest, spare = sp\<rparr>"
    by (rule rf [where pre = "tid @ fl @ el @ ed"]) (simp_all add: fl el)
  have s5: "\<And>lo hi. lo = int (length tid) + 2 + 2 + int (length ed) + int (length ccb) \<Longrightarrow> hi = lo + int ?n \<Longrightarrow>
            sl ?D lo hi = Some \<lparr>elems = bm1, spare = (bm2 @ rest) @ sp\<rparr>"
    by (rule rs [where pre = "tid @ fl @ el @ ed @ ccb"]) (simp_all add: fl b1 el)
  have s6: "\<And>lo hi. length bm2 = ?n \<Longrightarrow> lo = int (length tid) + 2 + 2 + int (length ed) + int (length ccb) + int ?n \<Longrightarrow>
            hi = lo + int ?n \<Longrightarrow>
            sl ?D lo hi = Some \<lparr>elems = bm2, spare = rest @ sp\<rparr>"
    by (rule rs [where pre = "tid @ fl @ el @ ed @ ccb @ bm1"]) (simp_all add: fl b1 el)
  show ?thesis
  proof (cases "typ = UpdateRowsEventV1 \<or> typ = UpdateRowsEventV2")
    case u: True
    with b2 have l2: "length bm2 = ?n" by simp
    show ?thesis
      using ver u
      by (simp add: decodeRowsEvent_def init Let_def bs FixedLengthInt_def r1 f2 u2 li x u3 f3 s3
            f4 s5 s6 [OF l2])
  next
    case u: False
    with b2 have l2: "bm2 = []" by simp
    show ?thesis
      using ver u
      by (simp add: decodeRowsEvent_def init Let_def bs FixedLengthInt_def u2 li l2 x u3
            r1 [unfolded l2 append_Nil] f2 [unfolded l2 append_Nil]
            f3 [unfolded l2 append_Nil] s3 [unfolded l2 append_Nil]
            f4 [unfolded l2 append_Nil] s5 [unfolded l2 append_Nil])
  qed
qed


lemmas rows_eval = decodeRowsEvent_def Rows_Init_def LengthEncodedInt_def bitmapByteSize_def
  int_of_u64_def wrap_int_def FixedLengthInt_def fd55_def upd0_def updmax_def Let_def

text \<open>
  Claim C8, as the source has it. Take a body made of a table id of the width that the
  format description gives, two bytes of flags, for an event of version 2 the two bytes
  of the extra-data length and the extra data, a packed column count of at most
  $2^{63}-8$, a bitmap of \<open>ceil(columnCount/8)\<close> bytes and, for an Update event of
  version 1 or 2, a second bitmap of the same length right after the first; any bytes may
  follow. Then \<open>decodeRowsEvent\<close> returns the event with that column count, the first
  bitmap, and the second bitmap when the type is \<open>UpdateRowsEventV1\<close> or
  \<open>UpdateRowsEventV2\<close>; for every other type, the Write and Delete events and the
  Update event of version 0 among them, the second bitmap is empty whatever follows the
  first.
\<close>

theorem rows_second_bitmap:
  assumes tbl: "unat (typ - 1) < length (EventTypeHeader fd)"
    and tid: "int (length tid) = (if EventTypeHeader fd ! unat (typ - 1) = 6 then 4 else 6)"
    and fl: "length fl = 2"
    and ex: "if rowsVersion typ = 2 then length el = 2 \<and> le_nat el = length ed + 2
             else el = [] \<and> ed = []"
    and cc: "LengthEncodedInt (mk ccb) = Some (cc, nl, int (length ccb))"
    and bound: "uint cc \<le> 2 ^ 63 - 8"
    and b1: "length bm1 = (unat cc + 7) div 8"
    and b2: "if typ = UpdateRowsEventV1 \<or> typ = UpdateRowsEventV2
             then length bm2 = (unat cc + 7) div 8 else bm2 = []"
  shows "decodeRowsEvent \<lparr>elems = tid @ fl @ el @ ed @ ccb @ bm1 @ bm2 @ rest, spare = sp\<rparr> (Some fd) typ =
     Some \<lparr>Version = rowsVersion typ, rows_TableID = of_nat (le_nat tid),
           rows_tableIDLen = int (length tid), rows_Flags = of_nat (le_nat fl), ExtraData = ed,
           rows_ColumnCount = cc, ColumnsBitmap1 = bm1, ColumnsBitmap2 = bm2, tableMap = None\<rparr>"
proof (cases "rowsVersion typ = 2")
  case True
  with ex have "length el = 2" "le_nat el = length ed + 2" by simp_all
  with True show ?thesis by (intro rows_extra [where nl = nl] assms)
next
  case False
  with ex have e: "el = []" "ed = []" by simp_all
  from False show ?thesis unfolding e append_Nil by (intro rows_noextra [where nl = nl] assms)
qed

theorem rows_second_bitmap_witness:
  "decodeRowsEvent (mk upd0) (Some fd55) UpdateRowsEventV1 =
     Some \<lparr>Version = 1, rows_TableID = 42, rows_tableIDLen = 6, rows_Flags = 1, ExtraData = [],
           rows_ColumnCount = 2, ColumnsBitmap1 = [0xff], ColumnsBitmap2 = [0xff], tableMap = None\<rparr> \<and>
   decodeRowsEvent (mk upd0) (Some fd55) DeleteRowsEventV1 =
     Some \<lparr>Version = 1, rows_TableID = 42, rows_tableIDLen = 6, rows_Flags = 1, ExtraData = [],
           rows_ColumnCount = 2, ColumnsBitmap1 = [0xff], ColumnsBitmap2 = [], tableMap = None\<rparr> \<and>
   decodeRowsEvent (mk upd2) (Some fd56) UpdateRowsEventV2 =
     Some \<lparr>Version = 2, rows_TableID = 42, rows_tableIDLen = 6, rows_Flags = 1,
           ExtraData = [0xaa, 0xbb], rows_ColumnCount = 9, ColumnsBitmap1 = [0xff, 0x01],
           ColumnsBitmap2 = [0x0f, 0x00], tableMap = None\<rparr>"
proof -
  have c2: "LengthEncodedInt (mk [0x02]) = Some (2, False, int (length [0x02 :: byte]))"
    and c9: "LengthEncodedInt (mk [0x09]) = Some (9, False, int (length [0x09 :: byte]))"
    by (simp_all add: LengthEncodedInt_def mk_def)
  have 1: "decodeRowsEvent \<lparr>elems = [0x2a,0,0,0,0,0] @ [0x01,0x00] @ [] @ [] @ [0x02] @ [0xff] @ [0xff]
              @ [0xfc, 0x01,0,0,0, 0x02,0,0,0], spare = []\<rparr> (Some fd55) UpdateRowsEventV1 =
     Some \<lparr>Version = rowsVersion UpdateRowsEventV1, rows_TableID = of_nat (le_nat [0x2a,0,0,0,0,0]),
           rows_tableIDLen = int (length [0x2a,0,0,0,0,0 :: byte]), rows_Flags = of_nat (le_nat [0x01,0x00]),
           ExtraData = [], rows_ColumnCount = 2, ColumnsBitmap1 = [0xff], ColumnsBitmap2 = [0xff],
           tableMap = None\<rparr>"
    by (rule rows_second_bitmap [OF _ _ _ _ c2])
       (simp_all add: fd55_def rowsVersion_def event_type_defs)
  have 2: "decodeRowsEvent \<lparr>elems = [0x2a,0,0,0,0,0] @ [0x01,0x00] @ [] @ [] @ [0x02] @ [0xff] @ []
              @ [0xff, 0xfc, 0x01,0,0,0, 0x02,0,0,0], spare = []\<rparr> (Some fd55) DeleteRowsEventV1 =
     Some \<lparr>Version = rowsVersion DeleteRowsEventV1, rows_TableID = of_nat (le_nat [0x2a,0,0,0,0,0]),
           rows_tableIDLen = int (length [0x2a,0,0,0,0,0 :: byte]), rows_Flags = of_nat (le_nat [0x01,0x00]),
           ExtraData = [], rows_ColumnCount = 2, ColumnsBitmap1 = [0xff], ColumnsBitmap2 = [],
           tableMap = None\<rparr>"
    by (rule rows_second_bitmap [OF _ _ _ _ c2])
       (simp_all add: fd55_def rowsVersion_def event_type_defs)
  have 3: "decodeRowsEvent \<lparr>elems = [0x2a,0,0,0,0,0] @ [0x01,0x00] @ [0x04,0x00] @ [0xaa,0xbb] @ [0x09]
              @ [0xff,0x01] @ [0x0f,0x00] @ [0xfc, 0x01,0,0,0, 0x02,0,0,0], spare = []\<rparr>
            (Some fd56) UpdateRowsEventV2 =
     Some \<lparr>Version = rowsVersion UpdateRowsEventV2, rows_TableID = of_nat (le_nat [0x2a,0,0,0,0,0]),
           rows_tableIDLen = int (length [0x2a,0,0,0,0,0 :: byte]), rows_Flags = of_nat (le_nat [0x01,0x00]),
           ExtraData = [0xaa,0xbb], rows_ColumnCount = 9, ColumnsBitmap1 = [0xff,0x01],
           ColumnsBitmap2 = [0x0f,0x00], tableMap = None\<rparr>"
    by (rule rows_second_bitmap [OF _ _ _ _ c9])
       (simp_all add: fd56_def rowsVersion_def event_type_defs)
  from 1 2 3 show ?thesis
    by (simp add: mk_def upd0_def upd2_def rowsVersion_def event_type_defs)
qed


text \<open>
  The claim as stated fails on an Update event of version 0 (no second bitmap is read),
  and on a column count that is negative as an \<open>int\<close>: $2^{64}-1$ columns give two
  empty bitmaps.
\<close>

theorem rows_second_bitmap_counterexample:
  "decodeRowsEvent (mk upd0) (Some fd55) UpdateRowsEventV0 =
     Some \<lparr>Version = 0, rows_TableID = 42, rows_tableIDLen = 6, rows_Flags = 1, ExtraData = [],
           rows_ColumnCount = 2, ColumnsBitmap1 = [0xff], ColumnsBitmap2 = [], tableMap = None\<rparr> \<and>
   decodeRowsEvent (mk updmax) (Some fd55) UpdateRowsEventV1 =
     Some \<lparr>Version = 1, rows_TableID = 42, rows_tableIDLen = 6, rows_Flags = 1, ExtraData = [],
           rows_ColumnCount = 0xffffffffffffffff, ColumnsBitmap1 = [], ColumnsBitmap2 = [],
           tableMap = None\<rparr>"
  by (simp add: rows_eval slice_defs event_type_defs)



subsection \<open>The decode step on an event of the stream\<close>

lemma Validation_registry:
  "Validation X ev (Some (bi\<lparr>tableInfo := t\<rparr>)) hdr body = Validation X ev (Some bi) hdr body"
  by (simp add: Validation_def)

lemma DecodeEvent_frame:
  assumes "ReadNBytes (buf d) (headerLength (info d)) = Some (hdat, None, rd1)"
    and "decodeEventHeader hdat (headerLength (info d)) = Some (Some h, None)"
    and "EventType2Str (EventType h)"
    and "ReadNBytes rd1 (EventSize h - headerLength (info d)) = Some (data, None, rd2)"
  shows "DecodeEvent X d =
    (if EventType h \<noteq> FormatDescriptionEvent \<and> \<not> Start (Option d) h
     then Some ((None, None), d\<lparr>buf := rd2\<rparr>)
     else do {
       (event, data', err) \<leftarrow>
          Validation X \<lparr>Header = Some h, Body = None, ChecksumType = 0, ChecksumVal = []\<rparr>
            (Some (info d)) hdat data;
       case err of
         Some e \<Rightarrow> Some ((Some event, Some e), d\<lparr>buf := rd2\<rparr>)
       | None \<Rightarrow> decodeBody X (d\<lparr>buf := rd2\<rparr>) event h data'
     })"
  using assms by (simp add: DecodeEvent_def Let_def)

lemma DecodeEvent_split:
  obtains (frame) hdat h rd1 data rd2 where
      "ReadNBytes (buf d) (headerLength (info d)) = Some (hdat, None, rd1)"
      "decodeEventHeader hdat (headerLength (info d)) = Some (Some h, None)"
      "EventType2Str (EventType h)"
      "ReadNBytes rd1 (EventSize h - headerLength (info d)) = Some (data, None, rd2)"
  | (early) r where
      "\<And>X opt bi. headerLength bi = headerLength (info d) \<Longrightarrow>
         DecodeEvent X \<lparr>Option = opt, buf = buf d, info = bi\<rparr>
           = map_option (\<lambda>(e, rd). ((None, e), \<lparr>Option = opt, buf = rd, info = bi\<rparr>)) r"
proof (cases "ReadNBytes (buf d) (headerLength (info d))")
  case None
  then have "\<And>X opt bi. headerLength bi = headerLength (info d) \<Longrightarrow>
         DecodeEvent X \<lparr>Option = opt, buf = buf d, info = bi\<rparr>
           = map_option (\<lambda>(e, rd). ((None, e), \<lparr>Option = opt, buf = rd, info = bi\<rparr>)) None"
    by (simp add: DecodeEvent_def Let_def)
  then show ?thesis by (rule early)
next
  case (Some r1)
  obtain hdat e1 rd1 where r1: "r1 = (hdat, e1, rd1)" by (cases r1)
  show ?thesis
  proof (cases e1)
    case (Some e)
    with \<open>ReadNBytes (buf d) (headerLength (info d)) = Some r1\<close> r1
    have "\<And>X opt bi. headerLength bi = headerLength (info d) \<Longrightarrow>
         DecodeEvent X \<lparr>Option = opt, buf = buf d, info = bi\<rparr>
           = map_option (\<lambda>(e, rd). ((None, e), \<lparr>Option = opt, buf = rd, info = bi\<rparr>)) (Some (Some e, rd1))"
      by (simp add: DecodeEvent_def Let_def)
    then show ?thesis by (rule early)
  next
    case None
    note rd = \<open>ReadNBytes (buf d) (headerLength (info d)) = Some r1\<close> [unfolded r1 None]
    show ?thesis
    proof (cases "decodeEventHeader hdat (headerLength (info d))")
      case None
      with rd have "\<And>X opt bi. headerLength bi = headerLength (info d) \<Longrightarrow>
         DecodeEvent X \<lparr>Option = opt, buf = buf d, info = bi\<rparr>
           = map_option (\<lambda>(e, rd). ((None, e), \<lparr>Option = opt, buf = rd, info = bi\<rparr>)) None"
        by (simp add: DecodeEvent_def Let_def)
      then show ?thesis by (rule early)
    next
      case (Some r2)
      obtain hdr e2 where r2: "r2 = (hdr, e2)" by (cases r2)
      show ?thesis
      proof (cases e2)
        case (Some e)
        with rd \<open>decodeEventHeader hdat (headerLength (info d)) = Some r2\<close> r2
        have "\<And>X opt bi. headerLength bi = headerLength (info d) \<Longrightarrow>
         DecodeEvent X \<lparr>Option = opt, buf = buf d, info = bi\<rparr>
           = map_option (\<lambda>(e, rd). ((None, e), \<lparr>Option = opt, buf = rd, info = bi\<rparr>)) (Some (Some e, rd1))"
          by (simp add: DecodeEvent_def Let_def)
        then show ?thesis by (rule early)
      next
        case None
        note dh = \<open>decodeEventHeader hdat (headerLength (info d)) = Some r2\<close> [unfolded r2 None]
        show ?thesis
        proof (cases hdr)
          case None
          with rd dh have "\<And>X opt bi. headerLength bi = headerLength (info d) \<Longrightarrow>
             DecodeEvent X \<lparr>Option = opt, buf = buf d, info = bi\<rparr>
               = map_option (\<lambda>(e, rd). ((None, e), \<lparr>Option = opt, buf = rd, info = bi\<rparr>)) None"
            by (simp add: DecodeEvent_def Let_def)
          then show ?thesis by (rule early)
        next
          case (Some h)
          note dh' = dh [unfolded Some]
          show ?thesis
          proof (cases "EventType2Str (EventType h)")
            case False
            with rd dh' have "\<And>X opt bi. headerLength bi = headerLength (info d) \<Longrightarrow>
             DecodeEvent X \<lparr>Option = opt, buf = buf d, info = bi\<rparr>
               = map_option (\<lambda>(e, rd). ((None, e), \<lparr>Option = opt, buf = rd, info = bi\<rparr>))
                   (Some (Some ErrUnknownEventType, rd1))"
              by (simp add: DecodeEvent_def Let_def)
            then show ?thesis by (rule early)
          next
            case True
            show ?thesis
            proof (cases "ReadNBytes rd1 (EventSize h - headerLength (info d))")
              case None
              with rd dh' True have "\<And>X opt bi. headerLength bi = headerLength (info d) \<Longrightarrow>
               DecodeEvent X \<lparr>Option = opt, buf = buf d, info = bi\<rparr>
                 = map_option (\<lambda>(e, rd). ((None, e), \<lparr>Option = opt, buf = rd, info = bi\<rparr>)) None"
                by (simp add: DecodeEvent_def Let_def)
              then show ?thesis by (rule early)
            next
              case (Some r3)
              obtain data e3 rd2 where r3: "r3 = (data, e3, rd2)" by (cases r3)
              show ?thesis
              proof (cases e3)
                case (Some e)
                with rd dh' True \<open>ReadNBytes rd1 (EventSize h - headerLength (info d)) = Some r3\<close> r3
                have "\<And>X opt bi. headerLength bi = headerLength (info d) \<Longrightarrow>
                 DecodeEvent X \<lparr>Option = opt, buf = buf d, info = bi\<rparr>
                   = map_option (\<lambda>(e, rd). ((None, e), \<lparr>Option = opt, buf = rd, info = bi\<rparr>))
                       (Some (Some e, rd2))"
                  by (simp add: DecodeEvent_def Let_def)
                then show ?thesis by (rule early)
              next
                case None
                with rd dh' True \<open>ReadNBytes rd1 (EventSize h - headerLength (info d)) = Some r3\<close> r3
                show ?thesis by (intro frame [of hdat rd1 h data rd2]) simp_all
              qed
            qed
          qed
        qed
      qed
    qed
  qed
qed

lemma ReadNBytes_app:
  "int (length a) = n \<Longrightarrow> ReadNBytes (a @ b) n = Some (mk a, None, b)"
  by (auto simp: ReadNBytes_def)

lemma DecodeEvent_at:
  assumes "atEvent d hb h body rest"
  shows "DecodeEvent X d =
    (if EventType h \<noteq> FormatDescriptionEvent \<and> \<not> Start (Option d) h
     then Some ((None, None), d\<lparr>buf := rest\<rparr>)
     else do {
       (event, data', err) \<leftarrow> Validation X (newEvent h) (Some (info d)) (mk hb) (mk body);
       case err of
         Some e \<Rightarrow> Some ((Some event, Some e), d\<lparr>buf := rest\<rparr>)
       | None \<Rightarrow> decodeBody X (d\<lparr>buf := rest\<rparr>) event h data'
     })"
proof -
  from assms have b: "buf d = hb @ body @ rest"
    and l: "int (length hb) = headerLength (info d)"
    and dh: "decodeEventHeader (mk hb) (headerLength (info d)) = Some (Some h, None)"
    and k: "EventType2Str (EventType h)"
    and n: "int (length body) = EventSize h - headerLength (info d)"
    by (simp_all add: atEvent_def)
  have r1: "ReadNBytes (buf d) (headerLength (info d)) = Some (mk hb, None, body @ rest)"
    unfolding b using l by (rule ReadNBytes_app)
  have r2: "ReadNBytes (body @ rest) (EventSize h - headerLength (info d)) = Some (mk body, None, rest)"
    using n by (rule ReadNBytes_app)
  show ?thesis
    unfolding newEvent_def by (rule DecodeEvent_frame [OF r1 dh k r2])
qed

lemma decodeRowsEvent_tableMap:
  assumes "decodeRowsEvent data h typ = Some r"
  shows "tableMap r = None"
proof (cases "typ = UpdateRowsEventV1 \<or> typ = UpdateRowsEventV2")
  case True
  with assms show ?thesis
    by (clarsimp simp: decodeRowsEvent_def Let_def bind_eq_Some_conv)
next
  case False
  with assms show ?thesis
    by (clarsimp simp: decodeRowsEvent_def Let_def bind_eq_Some_conv)
qed

lemma decodeBody_rows:
  "isRowsEvent (EventType h) \<Longrightarrow>
   decodeBody X d ev h data =
     map_option (\<lambda>r. ((Some (ev\<lparr>Body := Some (RowsBody r)\<rparr>), None), d))
       (decodeRowsEvent data (description (info d)) (EventType h))"
  by (cases "decodeRowsEvent data (description (info d)) (EventType h)")
     (auto simp: decodeBody_def isRowsEvent_def event_type_defs Let_def)

lemma atEvent_registry:
  "atEvent (d\<lparr>info := (info d)\<lparr>tableInfo := t\<rparr>\<rparr>) hb h body rest = atEvent d hb h body rest"
  by (simp add: atEvent_def headerLength_def)

subsection \<open>The steps of the walk\<close>

lemma walk_end:
  "DecodeEvent X d = Some ((e, Some EOF), d') \<Longrightarrow> WalkEvent X f c d = Some (None, d', c)"
  by (subst WalkEvent.simps) simp

lemma walk_error:
  "DecodeEvent X d = Some ((e, Some err), d') \<Longrightarrow> err \<noteq> EOF \<Longrightarrow>
     WalkEvent X f c d = Some (Some err, d', c)"
  by (subst WalkEvent.simps) simp

lemma walk_skip:
  "DecodeEvent X d = Some ((None, None), d') \<Longrightarrow> WalkEvent X f c d = WalkEvent X f c d'"
  by (subst WalkEvent.simps) simp

lemma walk_stop:
  "DecodeEvent X d = Some ((Some ev, None), d') \<Longrightarrow> Header ev = Some h \<Longrightarrow>
   Stop (Option d') h \<Longrightarrow> WalkEvent X f c d = Some (None, d', c)"
  by (subst WalkEvent.simps) simp

lemma walk_deliver:
  "DecodeEvent X d = Some ((Some ev, None), d') \<Longrightarrow> Header ev = Some h \<Longrightarrow>
   \<not> Stop (Option d') h \<Longrightarrow>
   WalkEvent X f c d =
     (case f c ev of
        ((isContinue, err), c') \<Rightarrow>
          if \<not> isContinue \<or> err \<noteq> None then Some (err, d', c') else WalkEvent X f c' d')"
  by (subst WalkEvent.simps) simp

lemma walk_collect:
  "DecodeEvent X d = Some ((Some ev, None), d') \<Longrightarrow> Header ev = Some h \<Longrightarrow>
   \<not> Stop (Option d') h \<Longrightarrow> WalkEvent X collect c d = WalkEvent X collect (c @ [ev]) d'"
  by (simp add: walk_deliver collect_def)

subsection \<open>The sample stream\<close>

lemmas decode_eval = isRowsEvent_def headerLength_def DecodeEvent_def defaultEventHeaderSize_def ReadNBytes_def decodeEventHeader_def
  EventType2Str_def Validation_def decodeBody_def Let_def

lemma fde55_step:
  "hasChecksum X = (\<lambda>v. False) \<Longrightarrow> DecodeEvent X \<lparr>Option = opt, buf = fde55 @ rest, info = \<lparr>description = None, tableInfo = t\<rparr>\<rparr>
     = Some ((Some fdeEvent, None),
             \<lparr>Option = opt, buf = rest, info = \<lparr>description = Some fd55, tableInfo = t\<rparr>\<rparr>)"
  by (simp add: decode_eval slice_defs event_type_defs fde55_def fdeEvent_def fdeHeader_def fd55_def
       decodeFmtDescEvent_def Trim_def)


lemma Start_always:
  "StartTime o1 = zeroTime \<Longrightarrow> 0 \<le> Timestamp h \<Longrightarrow> Start (Some o1) h"
  by (simp add: Start_def zeroTime_def)

lemma wr1_step:
  "Start opt wr1Header \<Longrightarrow>
   DecodeEvent X \<lparr>Option = opt, buf = wr1 @ rest, info = \<lparr>description = Some fd55, tableInfo = t\<rparr>\<rparr>
     = Some ((Some wr1Event, None),
             \<lparr>Option = opt, buf = rest, info = \<lparr>description = Some fd55, tableInfo = t\<rparr>\<rparr>)"
  by (simp add: decode_eval slice_defs event_type_defs wr1_def wr1Event_def wr1Header_def fd55_def
       rows_eval)

lemma eof_step:
  "description bi = Some fd55 \<Longrightarrow>
   DecodeEvent X \<lparr>Option = opt, buf = [], info = bi\<rparr>
     = Some ((None, Some EOF), \<lparr>Option = opt, buf = [], info = bi\<rparr>)"
  by (simp add: decode_eval fd55_def)

lemmas at_eval = atEvent_def headerLength_def decodeEventHeader_def EventType2Str_def slice_defs Let_def

lemma wr1_at:
  "atEvent \<lparr>Option = opt, buf = wr1 @ rest, info = \<lparr>description = Some fd55, tableInfo = t\<rparr>\<rparr>
     (take 19 wr1) wr1Header (drop 19 wr1) rest"
  by (simp add: at_eval wr1_def wr1Header_def fd55_def)

lemma tm1_at:
  "atEvent \<lparr>Option = opt, buf = tm1 @ rest, info = \<lparr>description = Some fd55, tableInfo = t\<rparr>\<rparr>
     (take 19 tm1) tm1Header (drop 19 tm1) rest"
  by (simp add: at_eval tm1_def tm1Header_def fd55_def)

lemma short1_at:
  "atEvent \<lparr>Option = opt, buf = short1 @ rest, info = \<lparr>description = Some fd56, tableInfo = t\<rparr>\<rparr>
     (take 19 short1) short1Header (drop 19 short1) rest"
  by (simp add: at_eval short1_def short1Header_def fd56_def)

lemma tm1_decode:
  "decodeTableMapEvent (mk (drop 19 tm1)) (Some fd55) = Some (Some tm1Map, None)"
  by (simp add: decodeTableMapEvent_def TableMap_Init_def LengthEncodedInt_def LengthEncodedString_def
        decodeMeta_def metaStep_def field_type_defs event_type_defs FixedLengthInt_def bitmapByteSize_def
        int_of_u64_def wrap_int_def slice_defs Let_def tm1_def fd55_def tm1Map_def zeroColumnType_def)

lemma wr1_valid:
  "Validation X (newEvent wr1Header) (Some \<lparr>description = Some fd55, tableInfo = t\<rparr>)
      (mk (take 19 wr1)) (mk (drop 19 wr1)) = Some (newEvent wr1Header, mk (drop 19 wr1), None)"
  by (simp add: Validation_def newEvent_def wr1Header_def fd55_def wr1_def slice_defs)

lemma wr1_rows:
  "decodeRowsEvent (mk (drop 19 wr1)) (Some fd55) (EventType wr1Header) =
     Some \<lparr>Version = 1, rows_TableID = 42, rows_tableIDLen = 6, rows_Flags = 1,
            ExtraData = [], rows_ColumnCount = 2, ColumnsBitmap1 = [0xff], ColumnsBitmap2 = [],
            tableMap = None\<rparr>"
  by (simp add: rows_eval slice_defs event_type_defs wr1_def wr1Header_def)

lemma fde55_at:
  "atEvent \<lparr>Option = opt, buf = fde55 @ rest, info = \<lparr>description = None, tableInfo = t\<rparr>\<rparr>
     (take 19 fde55) fdeHeader (drop 19 fde55) rest"
  by (simp add: at_eval fde55_def fdeHeader_def defaultEventHeaderSize_def)

lemma fde55_valid:
  "Validation X (newEvent fdeHeader) (Some \<lparr>description = None, tableInfo = t\<rparr>)
      (mk (take 19 fde55)) (mk (drop 19 fde55)) = Some (newEvent fdeHeader, mk (drop 19 fde55), None)"
  by (simp add: Validation_def newEvent_def fdeHeader_def fde55_def slice_defs)

lemma fde55_decode: "decodeFmtDescEvent X0 (mk (drop 19 fde55)) = Some fd55"
  by (simp add: decodeFmtDescEvent_def Trim_def slice_defs Let_def fde55_def fd55_def X0_def)

lemma tm1_valid:
  "Validation X (newEvent tm1Header) (Some \<lparr>description = Some fd55, tableInfo = t\<rparr>)
      (mk (take 19 tm1)) (mk (drop 19 tm1)) = Some (newEvent tm1Header, mk (drop 19 tm1), None)"
  by (simp add: Validation_def newEvent_def tm1Header_def fd55_def tm1_def slice_defs)

lemma wr1_start: "StartTime o1 = zeroTime \<Longrightarrow> Start (Some o1) wr1Header"
  by (rule Start_always) (simp_all add: wr1Header_def)

lemma walk_sample:
  assumes x: "hasChecksum X = (\<lambda>v. False)"
    and z: "StartTime o1 = zeroTime"
    and s1: "\<not> Stop (Some o1) fdeHeader" and s2: "\<not> Stop (Some o1) wr1Header"
  shows "WalkEvent X collect [] \<lparr>Option = Some o1, buf = fde55 @ wr1,
            info = \<lparr>description = None, tableInfo = Map.empty\<rparr>\<rparr>
     = Some (None, \<lparr>Option = Some o1, buf = [],
                     info = \<lparr>description = Some fd55, tableInfo = Map.empty\<rparr>\<rparr>,
             [fdeEvent, wr1Event])"
proof -
  note a = fde55_step [OF x, of "Some o1" wr1 Map.empty]
  note b = wr1_step [OF wr1_start [OF z], of X "[]" Map.empty, simplified]
  note c = eof_step [of "\<lparr>description = Some fd55, tableInfo = Map.empty\<rparr>" X "Some o1", simplified]
  have "WalkEvent X collect [] \<lparr>Option = Some o1, buf = fde55 @ wr1,
            info = \<lparr>description = None, tableInfo = Map.empty\<rparr>\<rparr>
     = WalkEvent X collect [fdeEvent] \<lparr>Option = Some o1, buf = wr1,
            info = \<lparr>description = Some fd55, tableInfo = Map.empty\<rparr>\<rparr>"
    using walk_collect [OF a, of fdeHeader "[]"] s1 by (simp add: fdeEvent_def)
  also have "\<dots> = WalkEvent X collect [fdeEvent, wr1Event] \<lparr>Option = Some o1, buf = [],
            info = \<lparr>description = Some fd55, tableInfo = Map.empty\<rparr>\<rparr>"
    using walk_collect [OF b, of wr1Header "[fdeEvent]"] s2 by (simp add: wr1Event_def)
  also have "\<dots> = Some (None, \<lparr>Option = Some o1, buf = [],
                     info = \<lparr>description = Some fd55, tableInfo = Map.empty\<rparr>\<rparr>,
             [fdeEvent, wr1Event])"
    by (rule walk_end [OF c])
  finally show ?thesis .
qed

lemma tmbad_decode:
  "decodeTableMapEvent (mk (drop 19 tmbad)) (Some fd55) = Some (Some tmbadMap, Some EOF)"
  by (simp add: decodeTableMapEvent_def TableMap_Init_def LengthEncodedInt_def LengthEncodedString_def
        decodeMeta_def metaStep_def field_type_defs event_type_defs FixedLengthInt_def bitmapByteSize_def
        int_of_u64_def wrap_int_def slice_defs Let_def tmbad_def fd55_def tmbadMap_def zeroColumnType_def)

lemma tmbad_step:
  "Start opt \<lparr>Timestamp = 101, EventType = 19, ServerID = 1, EventSize = 38, LogPos = 145, Flag = 0\<rparr> \<Longrightarrow>
   DecodeEvent X \<lparr>Option = opt, buf = tmbad @ rest, info = \<lparr>description = Some fd55, tableInfo = t\<rparr>\<rparr>
     = Some ((None, Some EOF),
             \<lparr>Option = opt, buf = rest, info = \<lparr>description = Some fd55, tableInfo = t\<rparr>\<rparr>)"
proof -
  assume s: "Start opt \<lparr>Timestamp = 101, EventType = 19, ServerID = 1, EventSize = 38, LogPos = 145, Flag = 0\<rparr>"
  have at: "atEvent \<lparr>Option = opt, buf = tmbad @ rest, info = \<lparr>description = Some fd55, tableInfo = t\<rparr>\<rparr>
     (take 19 tmbad) \<lparr>Timestamp = 101, EventType = 19, ServerID = 1, EventSize = 38, LogPos = 145, Flag = 0\<rparr>
     (drop 19 tmbad) rest"
    by (simp add: at_eval tmbad_def fd55_def)
  have v: "Validation X (newEvent \<lparr>Timestamp = 101, EventType = 19, ServerID = 1, EventSize = 38, LogPos = 145, Flag = 0\<rparr>)
      (Some \<lparr>description = Some fd55, tableInfo = t\<rparr>)
      (mk (take 19 tmbad)) (mk (drop 19 tmbad))
        = Some (newEvent \<lparr>Timestamp = 101, EventType = 19, ServerID = 1, EventSize = 38, LogPos = 145, Flag = 0\<rparr>,
                mk (drop 19 tmbad), None)"
    by (simp add: Validation_def newEvent_def fd55_def tmbad_def slice_defs)
  show ?thesis
    using s v tmbad_decode
    by (simp add: DecodeEvent_at [OF at] decodeBody_def Let_def event_type_defs)
qed

lemma xidsum_at:
  "atEvent \<lparr>Option = opt, buf = xidsum @ rest, info = \<lparr>description = Some fd56, tableInfo = t\<rparr>\<rparr>
     (take 19 xidsum) xidsumHeader (drop 19 xidsum) rest"
  by (simp add: at_eval xidsum_def xidsumHeader_def fd56_def)

subsection \<open>Row events and the table registry\<close>

text \<open>
  Claim C1, as the source has it. The decode step never reads the table registry. Take
  a decoder before a row event (Write, Update or Delete) that is within the window,
  passes validation and whose body \<open>decodeRowsEvent\<close> decodes: whatever the registry
  holds, also when it has no entry for the table id, \<open>DecodeEvent\<close> returns the event
  with the decoded body and no error, and no table schema is attached to the body.
\<close>

theorem rows_ignore_registry:
  assumes "atEvent d hb h body rest"
    and "isRowsEvent (EventType h)"
    and "Start (Option d) h"
    and "Validation X (newEvent h) (Some (info d)) (mk hb) (mk body) = Some (ev, data, None)"
    and "decodeRowsEvent data (description (info d)) (EventType h) = Some r"
  shows "DecodeEvent X (d\<lparr>info := (info d)\<lparr>tableInfo := t\<rparr>\<rparr>) =
           Some ((Some (ev\<lparr>Body := Some (RowsBody r)\<rparr>), None),
                 d\<lparr>buf := rest, info := (info d)\<lparr>tableInfo := t\<rparr>\<rparr>)
         \<and> tableMap r = None"
proof
  let ?d = "d\<lparr>info := (info d)\<lparr>tableInfo := t\<rparr>\<rparr>"
  have a: "atEvent ?d hb h body rest" using assms(1) by (simp only: atEvent_registry)
  have e: "?d\<lparr>buf := rest\<rparr> = d\<lparr>buf := rest, info := (info d)\<lparr>tableInfo := t\<rparr>\<rparr>"
    by (cases d) simp
  show "DecodeEvent X ?d = Some ((Some (ev\<lparr>Body := Some (RowsBody r)\<rparr>), None),
                 d\<lparr>buf := rest, info := (info d)\<lparr>tableInfo := t\<rparr>\<rparr>)"
    unfolding DecodeEvent_at [OF a] e
    using assms(2-5) by (simp add: Validation_registry decodeBody_rows)
  show "tableMap r = None" using assms(5) by (rule decodeRowsEvent_tableMap)
qed

theorem rows_ignore_registry_witness:
  "DecodeEvent X0 \<lparr>Option = None, buf = wr1,
        info = \<lparr>description = Some fd55, tableInfo = [7 \<mapsto> tm1Map]\<rparr>\<rparr>
     = Some ((Some wr1Event, None),
             \<lparr>Option = None, buf = [],
               info = \<lparr>description = Some fd55, tableInfo = [7 \<mapsto> tm1Map]\<rparr>\<rparr>) \<and>
   [7 \<mapsto> tm1Map] (rows_TableID \<lparr>Version = 1, rows_TableID = 42, rows_tableIDLen = 6, rows_Flags = 1,
            ExtraData = [], rows_ColumnCount = 2, ColumnsBitmap1 = [0xff], ColumnsBitmap2 = [],
            tableMap = None\<rparr>) = None"
proof -
  have r: "isRowsEvent (EventType wr1Header)"
    by (simp add: isRowsEvent_def wr1Header_def event_type_defs)
  have s: "Start None wr1Header" by (simp add: Start_def)
  from rows_ignore_registry [where d = "\<lparr>Option = None, buf = wr1,
          info = \<lparr>description = Some fd55, tableInfo = Map.empty\<rparr>\<rparr>"
        and hb = "take 19 wr1" and h = wr1Header and body = "drop 19 wr1" and rest = "[]"
        and X = X0 and ev = "newEvent wr1Header" and data = "mk (drop 19 wr1)"
        and t = "[7 \<mapsto> tm1Map]"
        and r = "\<lparr>Version = 1, rows_TableID = 42, rows_tableIDLen = 6, rows_Flags = 1,
            ExtraData = [], rows_ColumnCount = 2, ColumnsBitmap1 = [0xff], ColumnsBitmap2 = [],
            tableMap = None\<rparr>"]
       wr1_at [of None "[]" Map.empty] r s wr1_valid [of X0 Map.empty] wr1_rows
  show ?thesis by (simp add: wr1Event_def newEvent_def)
qed

text \<open>
  The claim as stated fails on the sample stream: no table-map event precedes the Write
  event on table 42, the registry is empty, and the event is decoded and given to the
  consumer.
\<close>

theorem rows_unknown_table_counterexample:
  "DecodeEvent X0 \<lparr>Option = None, buf = fde55 @ wr1, info = \<lparr>description = None, tableInfo = Map.empty\<rparr>\<rparr>
     = Some ((Some fdeEvent, None),
             \<lparr>Option = None, buf = wr1, info = \<lparr>description = Some fd55, tableInfo = Map.empty\<rparr>\<rparr>) \<and>
   DecodeEvent X0 \<lparr>Option = None, buf = wr1, info = \<lparr>description = Some fd55, tableInfo = Map.empty\<rparr>\<rparr>
     = Some ((Some wr1Event, None),
             \<lparr>Option = None, buf = [], info = \<lparr>description = Some fd55, tableInfo = Map.empty\<rparr>\<rparr>) \<and>
   WalkEvent X0 collect [] \<lparr>Option = None, buf = fde55 @ wr1, info = \<lparr>description = None, tableInfo = Map.empty\<rparr>\<rparr>
     = Some (None, \<lparr>Option = None, buf = [], info = \<lparr>description = Some fd55, tableInfo = Map.empty\<rparr>\<rparr>,
             [fdeEvent, wr1Event])"
proof -
  have x: "hasChecksum X0 = (\<lambda>v. False)" by (simp add: X0_def)
  have s: "Start None wr1Header" by (simp add: Start_def)
  note a = fde55_step [OF x, of None wr1 Map.empty]
  note b = wr1_step [OF s, of X0 "[]" Map.empty, simplified]
  note c = eof_step [of "\<lparr>description = Some fd55, tableInfo = Map.empty\<rparr>" X0 None, simplified]
  have "WalkEvent X0 collect [] \<lparr>Option = None, buf = fde55 @ wr1, info = \<lparr>description = None, tableInfo = Map.empty\<rparr>\<rparr>
     = WalkEvent X0 collect [fdeEvent] \<lparr>Option = None, buf = wr1, info = \<lparr>description = Some fd55, tableInfo = Map.empty\<rparr>\<rparr>"
    using walk_collect [OF a, of fdeHeader "[]"] by (simp add: fdeEvent_def Stop_def)
  also have "\<dots> = WalkEvent X0 collect [fdeEvent, wr1Event] \<lparr>Option = None, buf = [], info = \<lparr>description = Some fd55, tableInfo = Map.empty\<rparr>\<rparr>"
    using walk_collect [OF b, of wr1Header "[fdeEvent]"] by (simp add: wr1Event_def Stop_def)
  also have "\<dots> = Some (None, \<lparr>Option = None, buf = [], info = \<lparr>description = Some fd55, tableInfo = Map.empty\<rparr>\<rparr>,
             [fdeEvent, wr1Event])"
    by (rule walk_end [OF c])
  finally show ?thesis using a b by simp
qed

subsection \<open>The start of the window\<close>

text \<open>
  Claim C2 fails on the source. \<open>Start\<close> compares the start time with the event's
  timestamp also when no start time is set, unlike \<open>Stop\<close>, which asks \<open>IsZero\<close>
  first; the zero time is before every timestamp, so with a start position alone every
  event is within the window. On the sample stream with start position 200 and no start
  time, the Write event starts at offset 107, below the start position, and \<open>Start\<close>
  is true for it: the walk gives it to the consumer.
\<close>

theorem start_position_ignored:
  "StartPos from200 \<noteq> 0 \<and> StartTime from200 = zeroTime \<and>
   LogPos wr1Header - EventSize wr1Header < StartPos from200 \<and>
   Start (Some from200) wr1Header \<and>
   WalkEvent X0 collect [] \<lparr>Option = Some from200, buf = fde55 @ wr1,
            info = \<lparr>description = None, tableInfo = Map.empty\<rparr>\<rparr>
     = Some (None, \<lparr>Option = Some from200, buf = [],
                     info = \<lparr>description = Some fd55, tableInfo = Map.empty\<rparr>\<rparr>,
             [fdeEvent, wr1Event])"
proof (intro conjI)
  show "StartPos from200 \<noteq> 0" "StartTime from200 = zeroTime"
    "LogPos wr1Header - EventSize wr1Header < StartPos from200"
    by (simp_all add: from200_def wr1Header_def)
  show "Start (Some from200) wr1Header" by (rule wr1_start) (simp add: from200_def)
  show "WalkEvent X0 collect [] \<lparr>Option = Some from200, buf = fde55 @ wr1,
            info = \<lparr>description = None, tableInfo = Map.empty\<rparr>\<rparr>
     = Some (None, \<lparr>Option = Some from200, buf = [],
                     info = \<lparr>description = Some fd55, tableInfo = Map.empty\<rparr>\<rparr>,
             [fdeEvent, wr1Event])"
    by (rule walk_sample)
       (simp_all add: X0_def from200_def Stop_def fdeHeader_def wr1Header_def IsZero_def zeroTime_def)
qed

subsection \<open>Events before the start of the window\<close>

text \<open>
  Claim C9. Take a decoder before an event that is not a format description and for
  which \<open>Start\<close> is false. \<open>DecodeEvent\<close> returns no event and no error, for every
  body and whatever the checksum functions are (neither the size nor the checksum is
  looked at); the decoder it leaves differs only in its reader, which is past the event:
  the format description and the table registry are unchanged.
\<close>

theorem skipped_event_frame:
  assumes "atEvent d hb h body rest"
    and "EventType h \<noteq> FormatDescriptionEvent"
    and "\<not> Start (Option d) h"
  shows "DecodeEvent X d = Some ((None, None), d\<lparr>buf := rest\<rparr>)
         \<and> info (d\<lparr>buf := rest\<rparr>) = info d"
  using assms by (simp add: DecodeEvent_at)

theorem skipped_event_frame_witness:
  "DecodeEvent X0 \<lparr>Option = Some later, buf = tm1,
        info = \<lparr>description = Some fd55, tableInfo = Map.empty\<rparr>\<rparr>
     = Some ((None, None), \<lparr>Option = Some later, buf = [],
               info = \<lparr>description = Some fd55, tableInfo = Map.empty\<rparr>\<rparr>) \<and>
   decodeTableMapEvent (mk (drop 19 tm1)) (Some fd55) = Some (Some tm1Map, None) \<and>
   DecodeEvent X0 \<lparr>Option = Some later, buf = short1,
        info = \<lparr>description = Some fd56, tableInfo = Map.empty\<rparr>\<rparr>
     = Some ((None, None), \<lparr>Option = Some later, buf = [],
               info = \<lparr>description = Some fd56, tableInfo = Map.empty\<rparr>\<rparr>) \<and>
   Validation X0 (newEvent short1Header) (Some \<lparr>description = Some fd56, tableInfo = Map.empty\<rparr>)
      (mk (take 19 short1)) (mk (drop 19 short1)) = None"
proof -
  have t: "EventType tm1Header \<noteq> FormatDescriptionEvent" "EventType short1Header \<noteq> FormatDescriptionEvent"
    by (simp_all add: tm1Header_def short1Header_def event_type_defs)
  have s: "\<not> Start (Some later) tm1Header" "\<not> Start (Some later) short1Header"
    by (simp_all add: Start_def later_def tm1Header_def short1Header_def)
  have v: "Validation X0 (newEvent short1Header) (Some \<lparr>description = Some fd56, tableInfo = Map.empty\<rparr>)
      (mk (take 19 short1)) (mk (drop 19 short1)) = None"
    by (simp add: Validation_def newEvent_def short1Header_def fd56_def short1_def slice_defs
          binlogChecksumLength_def Let_def)
  from skipped_event_frame [OF tm1_at [of "Some later" "[]" Map.empty], of X0]
       skipped_event_frame [OF short1_at [of "Some later" "[]" Map.empty], of X0]
       t s v tm1_decode
  show ?thesis by simp
qed

subsection \<open>A table-map event with a null bitmap of the wrong length\<close>

text \<open>
  Claim C3 fails on the source. For a null bitmap of the wrong length
  \<open>decodeTableMapEvent\<close> returns the error \<open>io.EOF\<close>, which \<open>DecodeEvent\<close> passes
  on and \<open>WalkEvent\<close> takes for the end of the stream: the walk returns no error. On the
  sample stream the walk ends at the table-map event with success, the XID event behind
  it unread.
\<close>

theorem tablemap_eof_swallowed:
  "decodeTableMapEvent (mk (drop 19 tmbad)) (Some fd55) = Some (Some tmbadMap, Some EOF) \<and>
   WalkEvent X0 collect [] \<lparr>Option = None, buf = fde55 @ tmbad @ xid1,
            info = \<lparr>description = None, tableInfo = Map.empty\<rparr>\<rparr>
     = Some (None, \<lparr>Option = None, buf = xid1,
                     info = \<lparr>description = Some fd55, tableInfo = Map.empty\<rparr>\<rparr>,
             [fdeEvent])"
proof
  show "decodeTableMapEvent (mk (drop 19 tmbad)) (Some fd55) = Some (Some tmbadMap, Some EOF)"
    by (rule tmbad_decode)
  have x: "hasChecksum X0 = (\<lambda>v. False)" by (simp add: X0_def)
  note a = fde55_step [OF x, of None "tmbad @ xid1" Map.empty]
  have s: "Start None \<lparr>Timestamp = 101, EventType = 19, ServerID = 1, EventSize = 38, LogPos = 145, Flag = 0\<rparr>"
    by (simp add: Start_def)
  note b = tmbad_step [OF s, of X0 xid1 Map.empty]
  have "WalkEvent X0 collect [] \<lparr>Option = None, buf = fde55 @ tmbad @ xid1,
            info = \<lparr>description = None, tableInfo = Map.empty\<rparr>\<rparr>
     = WalkEvent X0 collect [fdeEvent] \<lparr>Option = None, buf = tmbad @ xid1,
            info = \<lparr>description = Some fd55, tableInfo = Map.empty\<rparr>\<rparr>"
    using walk_collect [OF a, of fdeHeader "[]"] by (simp add: fdeEvent_def Stop_def)
  also have "\<dots> = Some (None, \<lparr>Option = None, buf = xid1,
                     info = \<lparr>description = Some fd55, tableInfo = Map.empty\<rparr>\<rparr>, [fdeEvent])"
    by (rule walk_end [OF b])
  finally show "WalkEvent X0 collect [] \<lparr>Option = None, buf = fde55 @ tmbad @ xid1,
            info = \<lparr>description = None, tableInfo = Map.empty\<rparr>\<rparr>
     = Some (None, \<lparr>Option = None, buf = xid1,
                     info = \<lparr>description = Some fd55, tableInfo = Map.empty\<rparr>\<rparr>,
             [fdeEvent])" .
qed

subsection \<open>Validation with checksums\<close>

lemma atEvent_size:
  "atEvent d hb h body rest \<Longrightarrow> len (mk body) + len (mk hb) = EventSize h"
  by (simp add: atEvent_def len_def mk_def)

lemma Validation_checksum:
  assumes "description bi = Some fd" and "hasCheckSum fd" and "Header event = Some h"
    and "len body + len header = EventSize h" and "5 \<le> len body"
  shows "Validation X event (Some bi) header body =
     Some (event\<lparr>ChecksumType := elems body ! (length (elems body) - 5),
                 ChecksumVal := drop (length (elems body) - 4) (elems body)\<rparr>,
           \<lparr>elems = take (length (elems body) - 4) (elems body),
            spare = drop (length (elems body) - 4) (elems body) @ spare body\<rparr>,
           if ChecksumValidate X (elems body ! (length (elems body) - 5))
                (drop (length (elems body) - 4) (elems body))
                (elems header @ take (length (elems body) - 4) (elems body))
           then None else Some ErrChecksum)"
proof -
  from assms(5) have n: "5 \<le> length (elems body)" by (simp add: len_def)
  then have a: "nat (int (length (elems body)) - 5) = length (elems body) - 5"
    and b: "nat (int (length (elems body)) - 4) = length (elems body) - 4"
    by simp_all
  from n have c: "int (length (elems body)) - 4 - 1 = int (length (elems body)) - 5"
       "int (length (elems body)) - 4 - 1 + 1 = int (length (elems body)) - 4" by simp_all
  show ?thesis
    using assms n
    by (simp add: Validation_def binlogChecksumLength_def slice_defs Let_def a b c)
qed

text \<open>
  Claim C4, as the source has it. With checksums enabled and a body of at least five
  bytes whose length fits the event size, \<open>Validation\<close> takes the last four bytes of
  the body as the checksum value and the byte before them as the algorithm identifier;
  the body it returns is the prefix without the last four bytes, so the identifier byte
  stays in it, and the checksum is validated over the header bytes followed by that
  body. \<open>DecodeEvent\<close> hands this body to the decoder of the event type when the
  validator accepts, and returns the checksum error otherwise.
\<close>

theorem checksum_split:
  "(description bi = Some fd \<and> hasCheckSum fd \<and> Header event = Some h \<and>
    len body + len header = EventSize h \<and> 5 \<le> len body \<longrightarrow>
      Validation X event (Some bi) header body =
        Some (event\<lparr>ChecksumType := elems body ! (length (elems body) - 5),
                    ChecksumVal := drop (length (elems body) - 4) (elems body)\<rparr>,
              \<lparr>elems = take (length (elems body) - 4) (elems body),
               spare = drop (length (elems body) - 4) (elems body) @ spare body\<rparr>,
              if ChecksumValidate X (elems body ! (length (elems body) - 5))
                   (drop (length (elems body) - 4) (elems body))
                   (elems header @ take (length (elems body) - 4) (elems body))
              then None else Some ErrChecksum)) \<and>
   (atEvent d hb h' bd rest \<and> description (info d) = Some fd \<and> hasCheckSum fd \<and>
    5 \<le> length bd \<and> (EventType h' = FormatDescriptionEvent \<or> Start (Option d) h') \<longrightarrow>
      DecodeEvent X d =
        (if ChecksumValidate X (bd ! (length bd - 5)) (drop (length bd - 4) bd)
              (hb @ take (length bd - 4) bd)
         then decodeBody X (d\<lparr>buf := rest\<rparr>)
                ((newEvent h')\<lparr>ChecksumType := bd ! (length bd - 5),
                               ChecksumVal := drop (length bd - 4) bd\<rparr>) h'
                \<lparr>elems = take (length bd - 4) bd, spare = drop (length bd - 4) bd\<rparr>
         else Some ((Some ((newEvent h')\<lparr>ChecksumType := bd ! (length bd - 5),
                                         ChecksumVal := drop (length bd - 4) bd\<rparr>),
                     Some ErrChecksum), d\<lparr>buf := rest\<rparr>)))"
proof (intro conjI impI)
  assume "description bi = Some fd \<and> hasCheckSum fd \<and> Header event = Some h \<and>
    len body + len header = EventSize h \<and> 5 \<le> len body"
  then show "Validation X event (Some bi) header body =
        Some (event\<lparr>ChecksumType := elems body ! (length (elems body) - 5),
                    ChecksumVal := drop (length (elems body) - 4) (elems body)\<rparr>,
              \<lparr>elems = take (length (elems body) - 4) (elems body),
               spare = drop (length (elems body) - 4) (elems body) @ spare body\<rparr>,
              if ChecksumValidate X (elems body ! (length (elems body) - 5))
                   (drop (length (elems body) - 4) (elems body))
                   (elems header @ take (length (elems body) - 4) (elems body))
              then None else Some ErrChecksum)"
    by (intro Validation_checksum [where fd = fd and h = h]) simp_all
next
  assume a: "atEvent d hb h' bd rest \<and> description (info d) = Some fd \<and> hasCheckSum fd \<and>
    5 \<le> length bd \<and> (EventType h' = FormatDescriptionEvent \<or> Start (Option d) h')"
  then have at: "atEvent d hb h' bd rest" by simp
  have v: "Validation X (newEvent h') (Some (info d)) (mk hb) (mk bd) =
     Some ((newEvent h')\<lparr>ChecksumType := elems (mk bd) ! (length (elems (mk bd)) - 5),
                 ChecksumVal := drop (length (elems (mk bd)) - 4) (elems (mk bd))\<rparr>,
           \<lparr>elems = take (length (elems (mk bd)) - 4) (elems (mk bd)),
            spare = drop (length (elems (mk bd)) - 4) (elems (mk bd)) @ spare (mk bd)\<rparr>,
           if ChecksumValidate X (elems (mk bd) ! (length (elems (mk bd)) - 5))
                (drop (length (elems (mk bd)) - 4) (elems (mk bd)))
                (elems (mk hb) @ take (length (elems (mk bd)) - 4) (elems (mk bd)))
           then None else Some ErrChecksum)"
    using a atEvent_size [OF at]
    by (intro Validation_checksum [where fd = fd and h = h']) (simp_all add: newEvent_def len_def mk_def)
  show "DecodeEvent X d =
        (if ChecksumValidate X (bd ! (length bd - 5)) (drop (length bd - 4) bd)
              (hb @ take (length bd - 4) bd)
         then decodeBody X (d\<lparr>buf := rest\<rparr>)
                ((newEvent h')\<lparr>ChecksumType := bd ! (length bd - 5),
                               ChecksumVal := drop (length bd - 4) bd\<rparr>) h'
                \<lparr>elems = take (length bd - 4) bd, spare = drop (length bd - 4) bd\<rparr>
         else Some ((Some ((newEvent h')\<lparr>ChecksumType := bd ! (length bd - 5),
                                         ChecksumVal := drop (length bd - 4) bd\<rparr>),
                     Some ErrChecksum), d\<lparr>buf := rest\<rparr>))"
    using a by (auto simp: DecodeEvent_at [OF at] v [unfolded mk_def, simplified] mk_def)
qed

theorem checksum_split_witness:
  "Validation X0 (newEvent xidsumHeader) (Some \<lparr>description = Some fd56, tableInfo = Map.empty\<rparr>)
      (mk (take 19 xidsum)) (mk (drop 19 xidsum))
     = Some ((newEvent xidsumHeader)\<lparr>ChecksumType := 0x09, ChecksumVal := [0xde,0xad,0xbe,0xef]\<rparr>,
             \<lparr>elems = [0x07,0,0,0,0,0,0,0x09], spare = [0xde,0xad,0xbe,0xef]\<rparr>, None) \<and>
   DecodeEvent X0 \<lparr>Option = None, buf = xidsum,
        info = \<lparr>description = Some fd56, tableInfo = Map.empty\<rparr>\<rparr>
     = decodeBody X0 \<lparr>Option = None, buf = [],
            info = \<lparr>description = Some fd56, tableInfo = Map.empty\<rparr>\<rparr>
         ((newEvent xidsumHeader)\<lparr>ChecksumType := 0x09, ChecksumVal := [0xde,0xad,0xbe,0xef]\<rparr>)
         xidsumHeader \<lparr>elems = [0x07,0,0,0,0,0,0,0x09], spare = [0xde,0xad,0xbe,0xef]\<rparr>"
  using checksum_split [where bi = "\<lparr>description = Some fd56, tableInfo = Map.empty\<rparr>"
          and fd = fd56 and event = "newEvent xidsumHeader" and h = xidsumHeader
          and body = "mk (drop 19 xidsum)" and header = "mk (take 19 xidsum)" and X = X0
          and d = "\<lparr>Option = None, buf = xidsum,
                   info = \<lparr>description = Some fd56, tableInfo = Map.empty\<rparr>\<rparr>"
          and hb = "take 19 xidsum" and h' = xidsumHeader and bd = "drop 19 xidsum" and rest = "[]"]
        xidsum_at [of None "[]" Map.empty]
  by (simp add: newEvent_def xidsumHeader_def fd56_def xidsum_def mk_def len_def X0_def Start_def)

text \<open>
  The claim as stated fails on an XID event with four checksum bytes: the body has
  twelve bytes, the decoder is given eight of them, not seven, and reads the XID from
  them.
\<close>

theorem checksum_split_counterexample:
  "Validation X0 (newEvent xidsumHeader) (Some \<lparr>description = Some fd56, tableInfo = Map.empty\<rparr>)
      (mk (take 19 xidsum)) (mk (drop 19 xidsum))
     = Some ((newEvent xidsumHeader)\<lparr>ChecksumType := 0x09, ChecksumVal := [0xde,0xad,0xbe,0xef]\<rparr>,
             \<lparr>elems = [0x07,0,0,0,0,0,0,0x09], spare = [0xde,0xad,0xbe,0xef]\<rparr>, None) \<and>
   length (drop 19 xidsum) - 5 = 7 \<and>
   DecodeEvent X0 \<lparr>Option = None, buf = xidsum,
        info = \<lparr>description = Some fd56, tableInfo = Map.empty\<rparr>\<rparr>
     = Some ((Some \<lparr>Header = Some xidsumHeader, Body = Some (XIDBody 0x0900000000000007),
                     ChecksumType = 0x09, ChecksumVal = [0xde,0xad,0xbe,0xef]\<rparr>, None),
             \<lparr>Option = None, buf = [],
               info = \<lparr>description = Some fd56, tableInfo = Map.empty\<rparr>\<rparr>)"
proof (intro conjI)
  show v: "Validation X0 (newEvent xidsumHeader) (Some \<lparr>description = Some fd56, tableInfo = Map.empty\<rparr>)
      (mk (take 19 xidsum)) (mk (drop 19 xidsum))
     = Some ((newEvent xidsumHeader)\<lparr>ChecksumType := 0x09, ChecksumVal := [0xde,0xad,0xbe,0xef]\<rparr>,
             \<lparr>elems = [0x07,0,0,0,0,0,0,0x09], spare = [0xde,0xad,0xbe,0xef]\<rparr>, None)"
    by (simp add: Validation_def newEvent_def xidsumHeader_def fd56_def xidsum_def slice_defs
          binlogChecksumLength_def X0_def Let_def)
  show "length (drop 19 xidsum) - 5 = 7" by (simp add: xidsum_def)
  show "DecodeEvent X0 \<lparr>Option = None, buf = xidsum,
        info = \<lparr>description = Some fd56, tableInfo = Map.empty\<rparr>\<rparr>
     = Some ((Some \<lparr>Header = Some xidsumHeader, Body = Some (XIDBody 0x0900000000000007),
                     ChecksumType = 0x09, ChecksumVal = [0xde,0xad,0xbe,0xef]\<rparr>, None),
             \<lparr>Option = None, buf = [],
               info = \<lparr>description = Some fd56, tableInfo = Map.empty\<rparr>\<rparr>)"
    using v
    by (simp add: DecodeEvent_at [OF xidsum_at [of None "[]" Map.empty, simplified]] Start_def
          decodeBody_def decodeXIDEvent_def event_type_defs xidsumHeader_def newEvent_def slice_defs
          Let_def)
qed

subsection \<open>The stop position\<close>

lemma decodeBody_Option:
  "decodeBody X d ev h data = Some (r, d') \<Longrightarrow> Option d' = Option d"
  by (auto simp: decodeBody_def Let_def split: if_splits option.splits prod.splits Option.bind_splits)

lemma DecodeEvent_Option:
  assumes "DecodeEvent X d = Some (r, d')"
  shows "Option d' = Option d"
proof (cases rule: DecodeEvent_split [of d])
  case (frame hdat h rd1 data rd2)
  from assms show ?thesis
    unfolding DecodeEvent_frame [OF frame]
    by (auto split: if_splits option.splits prod.splits Option.bind_splits dest: decodeBody_Option)
next
  case (early r0)
  from early [OF refl, of X "Option d"] assms show ?thesis
    by (cases d; cases r0) (auto split: prod.splits)
qed

text \<open>
  Claim C5, as the source has it. In a walk with a stop position other than zero, when
  \<open>DecodeEvent\<close> returns an event: if its log position is greater than the stop
  position the walk returns at once without an error and without calling the consumer;
  if its log position is at most the stop position, equal to it included, and no stop
  time applies, the consumer is called with the event and the walk goes on as the
  consumer says.
\<close>

theorem stop_position:
  assumes dec: "DecodeEvent X d = Some ((Some ev, None), d')"
    and hdr: "Header ev = Some h"
    and opt: "Option d = Some opt"
    and pos: "EndPos opt \<noteq> 0"
  shows "(EndPos opt < LogPos h \<longrightarrow> WalkEvent X f c d = Some (None, d', c)) \<and>
         (LogPos h \<le> EndPos opt \<and> (IsZero (EndTime opt) \<or> Timestamp h < Unix (EndTime opt)) \<longrightarrow>
            WalkEvent X f c d =
              (case f c ev of
                 ((isContinue, err), c') \<Rightarrow>
                   if \<not> isContinue \<or> err \<noteq> None then Some (err, d', c')
                   else WalkEvent X f c' d'))"
proof (intro conjI impI)
  have o: "Option d' = Some opt" using DecodeEvent_Option [OF dec] opt by simp
  {
    assume "EndPos opt < LogPos h"
    with pos o have "Stop (Option d') h" by (simp add: Stop_def)
    with dec hdr show "WalkEvent X f c d = Some (None, d', c)" by (rule walk_stop)
  }
  {
    assume "LogPos h \<le> EndPos opt \<and> (IsZero (EndTime opt) \<or> Timestamp h < Unix (EndTime opt))"
    with o have "\<not> Stop (Option d') h" by (auto simp: Stop_def)
    with dec hdr show "WalkEvent X f c d =
              (case f c ev of
                 ((isContinue, err), c') \<Rightarrow>
                   if \<not> isContinue \<or> err \<noteq> None then Some (err, d', c')
                   else WalkEvent X f c' d')" by (rule walk_deliver)
  }
qed

theorem stop_position_witness:
  "WalkEvent X0 collect [] \<lparr>Option = Some until144, buf = wr1,
            info = \<lparr>description = Some fd55, tableInfo = Map.empty\<rparr>\<rparr>
     = Some (None, \<lparr>Option = Some until144, buf = [],
                     info = \<lparr>description = Some fd55, tableInfo = Map.empty\<rparr>\<rparr>, []) \<and>
   WalkEvent X0 collect [] \<lparr>Option = Some until145, buf = wr1,
            info = \<lparr>description = Some fd55, tableInfo = Map.empty\<rparr>\<rparr>
     = Some (None, \<lparr>Option = Some until145, buf = [],
                     info = \<lparr>description = Some fd55, tableInfo = Map.empty\<rparr>\<rparr>, [wr1Event])"
proof -
  have z: "StartTime until144 = zeroTime" "StartTime until145 = zeroTime"
    by (simp_all add: until144_def until145_def)
  note a = wr1_step [OF wr1_start [OF z(1)], of X0 "[]" Map.empty, simplified]
  note b = wr1_step [OF wr1_start [OF z(2)], of X0 "[]" Map.empty, simplified]
  note c = eof_step [of "\<lparr>description = Some fd55, tableInfo = Map.empty\<rparr>" X0 "Some until145", simplified]
  have h: "Header wr1Event = Some wr1Header" by (simp add: wr1Event_def)
  from stop_position [OF a h, of until144 collect "[]"]
       stop_position [OF b h, of until145 collect "[]"] walk_end [OF c, of collect "[wr1Event]"]
  show ?thesis
    by (simp add: until144_def until145_def wr1Header_def IsZero_def zeroTime_def collect_def)
qed

text \<open>
  The claim as stated fails on the sample stream with the stop position 145, the log
  position of the Write event: the event is given to the consumer.
\<close>

theorem stop_position_counterexample:
  "LogPos wr1Header = EndPos until145 \<and>
   WalkEvent X0 collect [] \<lparr>Option = Some until145, buf = fde55 @ wr1,
            info = \<lparr>description = None, tableInfo = Map.empty\<rparr>\<rparr>
     = Some (None, \<lparr>Option = Some until145, buf = [],
                     info = \<lparr>description = Some fd55, tableInfo = Map.empty\<rparr>\<rparr>,
             [fdeEvent, wr1Event])"
proof
  show "LogPos wr1Header = EndPos until145" by (simp add: wr1Header_def until145_def)
  show "WalkEvent X0 collect [] \<lparr>Option = Some until145, buf = fde55 @ wr1,
            info = \<lparr>description = None, tableInfo = Map.empty\<rparr>\<rparr>
     = Some (None, \<lparr>Option = Some until145, buf = [],
                     info = \<lparr>description = Some fd55, tableInfo = Map.empty\<rparr>\<rparr>,
             [fdeEvent, wr1Event])"
    by (rule walk_sample)
       (simp_all add: X0_def until145_def Stop_def fdeHeader_def wr1Header_def IsZero_def zeroTime_def)
qed

subsection \<open>The stop condition comes after the decode step\<close>

lemma decodeBody_fde:
  "EventType h = FormatDescriptionEvent \<Longrightarrow>
   decodeBody X d ev h data =
     map_option (\<lambda>fd. ((Some (ev\<lparr>Body := Some (FmtDescBody fd)\<rparr>), None),
                        d\<lparr>info := (info d)\<lparr>description := Some fd\<rparr>\<rparr>))
       (decodeFmtDescEvent X data)"
  by (cases "decodeFmtDescEvent X data") (simp_all add: decodeBody_def Let_def)

lemma decodeBody_tablemap:
  "EventType h = TableMapEvent \<Longrightarrow>
   decodeTableMapEvent data (description (info d)) = Some (Some tm, None) \<Longrightarrow>
   decodeBody X d ev h data =
     Some ((Some (ev\<lparr>Body := Some (TableMapBody tm)\<rparr>), None),
           d\<lparr>info := (info d)\<lparr>tableInfo := (tableInfo (info d))(tm_TableID tm \<mapsto> tm)\<rparr>\<rparr>)"
  by (simp add: decodeBody_def Let_def event_type_defs)

text \<open>
  Claim C10. Take a decoder before an event that passes validation and for which
  \<open>Stop\<close> is true. If it is a format description event whose body decodes, the walk
  returns without calling the consumer and the decoder it leaves has the new format
  description; if it is a table-map event within the window whose body decodes, the
  decoder it leaves has the schema registered under its table id.
\<close>

theorem stop_after_decode:
  assumes at: "atEvent d hb h body rest"
    and val: "Validation X (newEvent h) (Some (info d)) (mk hb) (mk body) = Some (ev, data, None)"
    and stop: "Stop (Option d) h"
  shows "(EventType h = FormatDescriptionEvent \<and> decodeFmtDescEvent X data = Some fd \<longrightarrow>
            WalkEvent X f c d =
              Some (None, d\<lparr>buf := rest, info := (info d)\<lparr>description := Some fd\<rparr>\<rparr>, c)) \<and>
         (EventType h = TableMapEvent \<and> Start (Option d) h \<and>
          decodeTableMapEvent data (description (info d)) = Some (Some tm, None) \<longrightarrow>
            WalkEvent X f c d =
              Some (None, d\<lparr>buf := rest,
                             info := (info d)\<lparr>tableInfo := (tableInfo (info d))(tm_TableID tm \<mapsto> tm)\<rparr>\<rparr>, c))"
proof (intro conjI impI)
  assume a: "EventType h = FormatDescriptionEvent \<and> decodeFmtDescEvent X data = Some fd"
  let ?d' = "d\<lparr>buf := rest, info := (info d)\<lparr>description := Some fd\<rparr>\<rparr>"
  let ?ev = "ev\<lparr>Body := Some (FmtDescBody fd)\<rparr>"
  have h: "Header ev = Some h" using val
    by (auto simp: Validation_def newEvent_def Let_def split: if_splits option.splits Option.bind_splits)
  have "DecodeEvent X d = Some ((Some ?ev, None), ?d')"
    using a val by (simp add: DecodeEvent_at [OF at] decodeBody_fde)
  then show "WalkEvent X f c d = Some (None, ?d', c)"
    by (rule walk_stop [where h = h]) (use h stop in simp_all)
next
  assume a: "EventType h = TableMapEvent \<and> Start (Option d) h \<and>
          decodeTableMapEvent data (description (info d)) = Some (Some tm, None)"
  let ?d' = "d\<lparr>buf := rest, info := (info d)\<lparr>tableInfo := (tableInfo (info d))(tm_TableID tm \<mapsto> tm)\<rparr>\<rparr>"
  let ?ev = "ev\<lparr>Body := Some (TableMapBody tm)\<rparr>"
  have h: "Header ev = Some h" using val
    by (auto simp: Validation_def newEvent_def Let_def split: if_splits option.splits Option.bind_splits)
  have "DecodeEvent X d = Some ((Some ?ev, None), ?d')"
    using a val by (simp add: DecodeEvent_at [OF at] decodeBody_tablemap)
  then show "WalkEvent X f c d = Some (None, ?d', c)"
    by (rule walk_stop [where h = h]) (use h stop in simp_all)
qed

theorem stop_after_decode_witness:
  "Stop (Some until50) fdeHeader \<and>
   WalkEvent X0 collect [] \<lparr>Option = Some until50, buf = fde55,
        info = \<lparr>description = None, tableInfo = Map.empty\<rparr>\<rparr>
     = Some (None, \<lparr>Option = Some until50, buf = [],
                     info = \<lparr>description = Some fd55, tableInfo = Map.empty\<rparr>\<rparr>, []) \<and>
   Stop (Some until50) tm1Header \<and>
   WalkEvent X0 collect [] \<lparr>Option = Some until50, buf = tm1,
        info = \<lparr>description = Some fd55, tableInfo = Map.empty\<rparr>\<rparr>
     = Some (None, \<lparr>Option = Some until50, buf = [],
                     info = \<lparr>description = Some fd55, tableInfo = [42 \<mapsto> tm1Map]\<rparr>\<rparr>, [])"
proof -
  have s: "Stop (Some until50) fdeHeader" "Stop (Some until50) tm1Header"
    by (simp_all add: Stop_def until50_def fdeHeader_def tm1Header_def)
  have st: "Start (Some until50) tm1Header"
    by (simp add: Start_def until50_def tm1Header_def zeroTime_def)
  have t: "EventType fdeHeader = FormatDescriptionEvent" "EventType tm1Header = TableMapEvent"
    by (simp_all add: fdeHeader_def tm1Header_def event_type_defs)
  from stop_after_decode [where d = "\<lparr>Option = Some until50, buf = fde55,
          info = \<lparr>description = None, tableInfo = Map.empty\<rparr>\<rparr>"
        and hb = "take 19 fde55" and h = fdeHeader and body = "drop 19 fde55" and rest = "[]"
        and X = X0 and ev = "newEvent fdeHeader" and data = "mk (drop 19 fde55)" and fd = fd55
        and f = collect and c = "[]"]
      stop_after_decode [where d = "\<lparr>Option = Some until50, buf = tm1,
          info = \<lparr>description = Some fd55, tableInfo = Map.empty\<rparr>\<rparr>"
        and hb = "take 19 tm1" and h = tm1Header and body = "drop 19 tm1" and rest = "[]"
        and X = X0 and ev = "newEvent tm1Header" and data = "mk (drop 19 tm1)" and tm = tm1Map
        and f = collect and c = "[]"]
      fde55_at [of "Some until50" "[]" Map.empty] fde55_valid [of X0 Map.empty] fde55_decode
      tm1_at [of "Some until50" "[]" Map.empty] tm1_valid [of X0 Map.empty] tm1_decode s st t
  show ?thesis by (simp add: tm1Map_def)
qed

subsection \<open>Rotate events\<close>








end
